theory Spec2Isabelle
  imports Main
begin

section \<open>Constants and data of main.go\<close>

text \<open>
  Go's \<open>int\<close> is modelled as the unbounded \<open>int\<close>. In every game the program can
  reach, the integers stored are small (cell coordinates from 0 to 12, lives from 0 to 3,
  the score from 0 to 5080; this is proved below as \<open>reachable_values_small\<close>), so that
  no addition or subtraction of \<open>Update\<close> leaves the range of a 32-bit or 64-bit
  \<open>int\<close>, and the two agree. Integer division of the positive constants is \<open>div\<close>.
\<close>

definition screenWidth :: int where "screenWidth = 320"
definition screenHeight :: int where "screenHeight = 240"
definition gridSize :: int where "gridSize = 24"
definition initialLen :: nat where "initialLen = 3"

text \<open>
  \<open>time.Time\<close> is an instant on one time line, counted in nanoseconds from Go's zero
  time, and \<open>time.Duration\<close> a number of nanoseconds. \<open>Time.Sub\<close> saturates at the
  ends of the 64-bit range of a duration, as Go's does.
\<close>

type_synonym Time = int
type_synonym Duration = int

definition Millisecond :: Duration where "Millisecond = 1000000"
definition Second :: Duration where "Second = 1000 * Millisecond"
definition maxDuration :: Duration where "maxDuration = 2 ^ 63 - 1"
definition minDuration :: Duration where "minDuration = - (2 ^ 63)"

definition time_Sub :: "Time \<Rightarrow> Time \<Rightarrow> Duration" where
  "time_Sub t u =
     (let d = t - u
      in if maxDuration < d then maxDuration
         else if d < minDuration then minDuration
         else d)"

definition time_After :: "Time \<Rightarrow> Time \<Rightarrow> bool" where
  "time_After t u = (u < t)"

definition time_IsZero :: "Time \<Rightarrow> bool" where
  "time_IsZero t = (t = 0)"

definition time_Add :: "Time \<Rightarrow> Duration \<Rightarrow> Time" where
  "time_Add t d = t + d"

record Point =
  X :: int
  Y :: int

record Food =
  Pos_food :: Point
  Spawned :: Time
  Lifetime :: Duration

text \<open>
  The game object. The three image fields of the Go struct are only read by \<open>Draw\<close> and
  are left out.
\<close>

record Game =
  snake :: "Point list"
  dir :: Point
  foods :: "Food list"
  grow :: bool
  gameOver :: bool
  lastMove :: Time
  score :: int
  lives :: int
  nextFoodTime :: Time

text \<open>
  What one call of \<open>Update\<close> reads from outside the game object: the keys that
  \<open>ebiten.IsKeyPressed\<close> reports; the value of each \<open>time.Now()\<close> the call can reach
  (\<open>nowSince\<close> inside \<open>time.Since\<close> on line 80, \<open>nowMove\<close> on line 83, \<open>nowInit1\<close>
  and \<open>nowInit2\<close> on lines 265 and 266 of \<open>init\<close>, \<open>nowFrame\<close> on line 134 and
  \<open>nowSpawn\<close> on line 291 of \<open>spawnFood\<close>); and the successive pairs
  \<open>(rand.Intn(13), rand.Intn(10))\<close> that the placement loop of \<open>spawnFood\<close> draws.
\<close>

record Env =
  keyArrowUp :: bool
  keyArrowDown :: bool
  keyArrowLeft :: bool
  keyArrowRight :: bool
  keySpace :: bool
  nowSince :: Time
  nowMove :: Time
  nowInit1 :: Time
  nowInit2 :: Time
  nowFrame :: Time
  nowSpawn :: Time
  draws :: "Point list"

datatype Error =
  IndexOutOfRange
  | OutOfDraws

section \<open>The operations\<close>

text \<open>\<open>Game.init\<close>: \<open>t1\<close> and \<open>t2\<close> are its two clock readings.\<close>

definition init :: "Time \<Rightarrow> Time \<Rightarrow> Game \<Rightarrow> Game" where
  "init t1 t2 g =
     g\<lparr>snake := map (\<lambda>i. \<lparr>X = screenWidth div gridSize div 2 - int i,
                             Y = screenHeight div gridSize div 2\<rparr>) [0..<initialLen],
       dir := \<lparr>X = 1, Y = 0\<rparr>,
       grow := False,
       gameOver := False,
       foods := [],
       lastMove := t1,
       nextFoodTime := t2\<rparr>"

text \<open>
  \<open>Game.spawnFood\<close>. The loop draws a cell, rejects it when a snake cell or a food item
  is on it, and draws again. It has no bound in the source; here it consumes the list of
  draws it is given, and \<open>Inl OutOfDraws\<close> says that it has not returned after all of them.
\<close>

fun spawnFood :: "Point list \<Rightarrow> Time \<Rightarrow> Game \<Rightarrow> Error + Game" where
  "spawnFood [] t g = Inl OutOfDraws"
| "spawnFood (pos # rs) t g =
     (if pos \<in> set (snake g) \<or> pos \<in> set (map Pos_food (foods g))
      then spawnFood rs t g
      else Inr (g\<lparr>foods := foods g @
                   [\<lparr>Pos_food = pos, Spawned = t, Lifetime = 4 * Second\<rparr>]\<rparr>))"

text \<open>The direction keys, lines 68 to 77 of \<open>Update\<close>.\<close>

definition directionInput :: "Env \<Rightarrow> Point \<Rightarrow> Point" where
  "directionInput env d =
     (if keyArrowUp env \<and> Y d \<noteq> 1 then \<lparr>X = 0, Y = - 1\<rparr>
      else if keyArrowDown env \<and> Y d \<noteq> - 1 then \<lparr>X = 0, Y = 1\<rparr>
      else if keyArrowLeft env \<and> X d \<noteq> 1 then \<lparr>X = - 1, Y = 0\<rparr>
      else if keyArrowRight env \<and> X d \<noteq> - 1 then \<lparr>X = 1, Y = 0\<rparr>
      else d)"

text \<open>The wall test of line 89.\<close>

definition hitsWall :: "Point \<Rightarrow> bool" where
  "hitsWall p =
     (X p < 0 \<or> Y p < 0 \<or> screenWidth div gridSize \<le> X p \<or> screenHeight div gridSize \<le> Y p)"

text \<open>
  What both collision branches do (lines 90 to 96 and 101 to 107): one life less, then
  \<open>init\<close> or game over.
\<close>

definition loseLife :: "Env \<Rightarrow> Game \<Rightarrow> Game" where
  "loseLife env g =
     (let g1 = g\<lparr>lives := lives g - 1\<rparr>
      in if 0 < lives g1 then init (nowInit1 env) (nowInit2 env) g1
         else g1\<lparr>gameOver := True\<rparr>)"

text \<open>The index of the first food item on the new head (lines 114 to 120).\<close>

fun ateFoodIndex :: "Point \<Rightarrow> Food list \<Rightarrow> nat option" where
  "ateFoodIndex p [] = None"
| "ateFoodIndex p (f # fs) =
     (if p = Pos_food f then Some 0 else map_option Suc (ateFoodIndex p fs))"

text \<open>Lines 121 to 131: eat, then trim the tail unless the snake grows.\<close>

definition eatFood :: "Point \<Rightarrow> Game \<Rightarrow> Game" where
  "eatFood newHead g =
     (case ateFoodIndex newHead (foods g) of
        None \<Rightarrow> g
      | Some i \<Rightarrow> g\<lparr>grow := True, score := score g + 10,
                     foods := take i (foods g) @ drop (i + 1) (foods g)\<rparr>)"

definition trimTail :: "Game \<Rightarrow> Game" where
  "trimTail g = (if \<not> grow g then g\<lparr>snake := butlast (snake g)\<rparr> else g\<lparr>grow := False\<rparr>)"

text \<open>Lines 133 to 141: keep the food items that have not lived their lifetime.\<close>

definition expireFood :: "Time \<Rightarrow> Game \<Rightarrow> Game" where
  "expireFood now g =
     g\<lparr>foods := filter (\<lambda>food. time_Sub now (Spawned food) < Lifetime food) (foods g)\<rparr>"

text \<open>Lines 143 to 153: the food spawn logic.\<close>

definition spawnLogic :: "Env \<Rightarrow> Game \<Rightarrow> Error + Game" where
  "spawnLogic env g =
     (let now = nowFrame env
      in if length (foods g) < 4 then
           if time_IsZero (nextFoodTime g) \<or> time_After now (nextFoodTime g) then
             (case spawnFood (draws env) (nowSpawn env) g of
                Inl e \<Rightarrow> Inl e
              | Inr g1 \<Rightarrow>
                  if length (foods g1) < 4
                  then Inr (g1\<lparr>nextFoodTime := now\<rparr>)
                  else Inr (g1\<lparr>nextFoodTime := time_Add now (1 * Second)\<rparr>))
           else Inr g
         else Inr g)"

text \<open>
  \<open>Game.Update\<close>. Reading \<open>g.snake[0]\<close> of an empty snake panics in Go:
  \<open>Inl IndexOutOfRange\<close>.
\<close>

definition Update :: "Env \<Rightarrow> Game \<Rightarrow> Error + Game" where
  "Update env g =
     (if gameOver g then
        (if keySpace env
         then Inr (init (nowInit1 env) (nowInit2 env) (g\<lparr>lives := 3, score := 0\<rparr>))
         else Inr g)
      else
        let g1 = g\<lparr>dir := directionInput env (dir g)\<rparr>
        in if time_Sub (nowSince env) (lastMove g1) < 100 * Millisecond then Inr g1
           else
             let g2 = g1\<lparr>lastMove := nowMove env\<rparr>
             in (case snake g2 of
                   [] \<Rightarrow> Inl IndexOutOfRange
                 | head # _ \<Rightarrow>
                     let newHead = \<lparr>X = X head + X (dir g2), Y = Y head + Y (dir g2)\<rparr>
                     in if hitsWall newHead then Inr (loseLife env g2)
                        else if newHead \<in> set (snake g2) then Inr (loseLife env g2)
                        else
                          spawnLogic env
                            (expireFood (nowFrame env)
                              (trimTail (eatFood newHead (g2\<lparr>snake := newHead # snake g2\<rparr>))))))"

text \<open>
  \<open>main\<close> builds the zero-valued game object, sets lives and score and calls \<open>init\<close>;
  the host then calls \<open>Update\<close> again and again.
\<close>

definition zeroGame :: Game where
  "zeroGame =
     \<lparr>snake = [], dir = \<lparr>X = 0, Y = 0\<rparr>, foods = [], grow = False, gameOver = False,
      lastMove = 0, score = 0, lives = 0, nextFoodTime = 0\<rparr>"

definition mainGame :: "Time \<Rightarrow> Time \<Rightarrow> Game" where
  "mainGame t1 t2 = init t1 t2 (zeroGame\<lparr>lives := 3, score := 0\<rparr>)"

fun run :: "Env list \<Rightarrow> Game \<Rightarrow> Error + Game" where
  "run [] g = Inr g"
| "run (env # envs) g = (case Update env g of Inl e \<Rightarrow> Inl e | Inr g1 \<Rightarrow> run envs g1)"

text \<open>
  The contract of \<open>rand.Intn\<close> on the draws of a call: \<open>rand.Intn(n)\<close> lies in
  \<open>[0, n)\<close>, so each drawn cell lies in the grid.
\<close>

definition inGrid :: "Point \<Rightarrow> bool" where
  "inGrid p =
     (0 \<le> X p \<and> X p < screenWidth div gridSize \<and> 0 \<le> Y p \<and> Y p < screenHeight div gridSize)"

definition drawsInRange :: "Env \<Rightarrow> bool" where
  "drawsInRange env = list_all inGrid (draws env)"

section \<open>Heading intents\<close>

text \<open>
  The four headings are the four points that lines 70 to 76 assign to \<open>g.dir\<close>; a heading
  intent is a poll in which exactly that arrow key is pressed.
\<close>

datatype Heading = Up | Down | Left | Right

fun delta :: "Heading \<Rightarrow> Point" where
  "delta Up = \<lparr>X = 0, Y = - 1\<rparr>"
| "delta Down = \<lparr>X = 0, Y = 1\<rparr>"
| "delta Left = \<lparr>X = - 1, Y = 0\<rparr>"
| "delta Right = \<lparr>X = 1, Y = 0\<rparr>"



section \<open>The range of the stored integers\<close>

text \<open>
  What every reachable game satisfies, and what keeps its integers far inside the range of
  a Go \<open>int\<close>: the snake lies in the grid without overlap, the heading is one of the four
  unit points, the lives are between 0 and 3, and the score is bounded by ten times the
  number of cells the snake can have grown by since the session began.
\<close>

definition small :: "Game \<Rightarrow> bool" where
  "small g =
     ((\<forall>c \<in> set (snake g). inGrid c) \<and> distinct (snake g) \<and> 3 \<le> length (snake g) \<and>
      dir g \<in> range delta \<and> \<not> grow g \<and>
      0 \<le> lives g \<and> lives g \<le> 3 \<and> (gameOver g \<longrightarrow> lives g = 0) \<and>
      (\<not> gameOver g \<longrightarrow> 1 \<le> lives g) \<and>
      0 \<le> score g \<and> score g \<le> 10 * (127 * (3 - lives g) + (int (length (snake g)) - 3)))"

section \<open>Concrete inputs\<close>

text \<open>
  A call of \<open>Update\<close> at clock reading \<open>t\<close> (the clock does not advance during the
  call) with no key pressed and the draws \<open>rs\<close>. All times are in nanoseconds; the program
  starts at 5 s.
\<close>

definition poll :: "Time \<Rightarrow> Point list \<Rightarrow> Env" where
  "poll t rs =
     \<lparr>keyArrowUp = False, keyArrowDown = False, keyArrowLeft = False, keyArrowRight = False,
      keySpace = False, nowSince = t, nowMove = t, nowInit1 = t,
      nowInit2 = t, nowFrame = t, nowSpawn = t, draws = rs\<rparr>"

text \<open>
  Eating: the game as \<open>main\<close> leaves it, with one food item in front of the head, and a
  call 100 ms later. \<open>envW\<close> is a call after 50 ms only, too early for a step.
\<close>

definition foodA :: Food where
  "foodA = \<lparr>Pos_food = \<lparr>X = 7, Y = 5\<rparr>, Spawned = 5000000000, Lifetime = 4 * Second\<rparr>"

definition gameA :: Game where
  "gameA = (mainGame 5000000000 5000000000)\<lparr>foods := [foodA]\<rparr>"

definition envA :: Env where
  "envA = poll 5100000000 [\<lparr>X = 2, Y = 3\<rparr>]"

definition envW :: Env where
  "envW = poll 5050000000 []"

text \<open>
  The wall, with lives to spare: the six calls of \<open>envsB\<close> take the snake from the start
  to the right wall, with four food items spawned on the way (\<open>gameB\<close>); the next step,
  at 5.7 s, leaves the grid.
\<close>

definition envsB :: "Env list" where
  "envsB =
     [poll 5100000000 [\<lparr>X = 7, Y = 5\<rparr>, \<lparr>X = 3, Y = 3\<rparr>],
      poll 5200000000 [\<lparr>X = 3, Y = 3\<rparr>, \<lparr>X = 1, Y = 8\<rparr>],
      poll 5300000000 [\<lparr>X = 10, Y = 2\<rparr>],
      poll 5400000000 [\<lparr>X = 2, Y = 6\<rparr>],
      poll 5500000000 [],
      poll 5600000000 []]"

definition gameB :: Game where
  "gameB =
     \<lparr>snake = [\<lparr>X = 12, Y = 5\<rparr>, \<lparr>X = 11, Y = 5\<rparr>, \<lparr>X = 10, Y = 5\<rparr>],
      dir = \<lparr>X = 1, Y = 0\<rparr>,
      foods =
        [\<lparr>Pos_food = \<lparr>X = 3, Y = 3\<rparr>, Spawned = 5100000000, Lifetime = 4000000000\<rparr>,
         \<lparr>Pos_food = \<lparr>X = 1, Y = 8\<rparr>, Spawned = 5200000000, Lifetime = 4000000000\<rparr>,
         \<lparr>Pos_food = \<lparr>X = 10, Y = 2\<rparr>, Spawned = 5300000000, Lifetime = 4000000000\<rparr>,
         \<lparr>Pos_food = \<lparr>X = 2, Y = 6\<rparr>, Spawned = 5400000000, Lifetime = 4000000000\<rparr>],
      grow = False, gameOver = False, lastMove = 5600000000, score = 0, lives = 3,
      nextFoodTime = 6400000000\<rparr>"

definition envB :: Env where
  "envB = poll 5700000000 []"

definition resultB :: Game where
  "resultB =
     \<lparr>snake = [\<lparr>X = 6, Y = 5\<rparr>, \<lparr>X = 5, Y = 5\<rparr>, \<lparr>X = 4, Y = 5\<rparr>],
      dir = \<lparr>X = 1, Y = 0\<rparr>, foods = [], grow = False, gameOver = False,
      lastMove = 5700000000, score = 0, lives = 2, nextFoodTime = 5700000000\<rparr>"

text \<open>
  The wall, with the last life: after the calls of \<open>envsC\<close> the snake has run into the
  right wall twice (at 5.7 s and at 6.4 s) and stands before it a third time at 7.0 s, with
  one life left and four food items spawned from 6.5 s on (\<open>gameC\<close>). The host then
  stalls, and the next call comes at 10.5 s, when the oldest item, \<open>foodC\<close>, is 4 s old
  and the second, \<open>foodC2\<close>, 3.9 s. With no key pressed (\<open>envC\<close>) the snake hits the
  wall; with the up key pressed (\<open>envX\<close>) it turns away.
\<close>

definition envsC :: "Env list" where
  "envsC =
     envsB @
     [poll 5700000000 [],
      poll 5800000000 [\<lparr>X = 3, Y = 3\<rparr>],
      poll 5900000000 [\<lparr>X = 1, Y = 8\<rparr>],
      poll 6000000000 [\<lparr>X = 10, Y = 2\<rparr>],
      poll 6100000000 [\<lparr>X = 2, Y = 6\<rparr>],
      poll 6200000000 [],
      poll 6300000000 [],
      poll 6400000000 [],
      poll 6500000000 [\<lparr>X = 4, Y = 4\<rparr>],
      poll 6600000000 [\<lparr>X = 8, Y = 1\<rparr>],
      poll 6700000000 [\<lparr>X = 0, Y = 9\<rparr>],
      poll 6800000000 [\<lparr>X = 12, Y = 0\<rparr>],
      poll 6900000000 [],
      poll 7000000000 []]"

definition foodC :: Food where
  "foodC = \<lparr>Pos_food = \<lparr>X = 4, Y = 4\<rparr>, Spawned = 6500000000, Lifetime = 4000000000\<rparr>"

definition foodC2 :: Food where
  "foodC2 = \<lparr>Pos_food = \<lparr>X = 8, Y = 1\<rparr>, Spawned = 6600000000, Lifetime = 4000000000\<rparr>"

definition gameC :: Game where
  "gameC =
     \<lparr>snake = [\<lparr>X = 12, Y = 5\<rparr>, \<lparr>X = 11, Y = 5\<rparr>, \<lparr>X = 10, Y = 5\<rparr>],
      dir = \<lparr>X = 1, Y = 0\<rparr>,
      foods =
        [foodC, foodC2,
         \<lparr>Pos_food = \<lparr>X = 0, Y = 9\<rparr>, Spawned = 6700000000, Lifetime = 4000000000\<rparr>,
         \<lparr>Pos_food = \<lparr>X = 12, Y = 0\<rparr>, Spawned = 6800000000, Lifetime = 4000000000\<rparr>],
      grow = False, gameOver = False, lastMove = 7000000000, score = 0, lives = 1,
      nextFoodTime = 7800000000\<rparr>"

definition envC :: Env where
  "envC = poll 10500000000 []"

definition resultC :: Game where
  "resultC = gameC\<lparr>lastMove := 10500000000, lives := 0, gameOver := True\<rparr>"

definition envX :: Env where
  "envX = (poll 10500000000 [\<lparr>X = 3, Y = 3\<rparr>])\<lparr>keyArrowUp := True\<rparr>"

text \<open>
  The next spawn time to the nanosecond: in the calls of \<open>envsD\<close> the fourth food item is
  spawned at 5.4 s, which sets the next spawn time to 6.4 s; the snake eats one item at
  5.5 s, turns up and then left (\<open>gameD\<close>), and the next call comes at 6.4 s sharp
  (\<open>envD\<close>). \<open>envE\<close> is the call after that, at 6.5 s.
\<close>

definition envsD :: "Env list" where
  "envsD =
     [poll 5100000000 [\<lparr>X = 11, Y = 5\<rparr>],
      poll 5200000000 [\<lparr>X = 1, Y = 1\<rparr>],
      poll 5300000000 [\<lparr>X = 2, Y = 8\<rparr>],
      poll 5400000000 [\<lparr>X = 12, Y = 9\<rparr>],
      poll 5500000000 [\<lparr>X = 0, Y = 0\<rparr>],
      (poll 5600000000 [\<lparr>X = 0, Y = 0\<rparr>])\<lparr>keyArrowUp := True\<rparr>,
      (poll 5700000000 [\<lparr>X = 0, Y = 0\<rparr>])\<lparr>keyArrowLeft := True\<rparr>,
      poll 5800000000 [\<lparr>X = 0, Y = 0\<rparr>],
      poll 5900000000 [\<lparr>X = 0, Y = 0\<rparr>],
      poll 6000000000 [\<lparr>X = 0, Y = 0\<rparr>],
      poll 6100000000 [\<lparr>X = 0, Y = 0\<rparr>],
      poll 6200000000 [\<lparr>X = 0, Y = 0\<rparr>],
      poll 6300000000 [\<lparr>X = 0, Y = 0\<rparr>]]"

definition gameD :: Game where
  "gameD =
     \<lparr>snake = [\<lparr>X = 4, Y = 4\<rparr>, \<lparr>X = 5, Y = 4\<rparr>, \<lparr>X = 6, Y = 4\<rparr>, \<lparr>X = 7, Y = 4\<rparr>],
      dir = \<lparr>X = - 1, Y = 0\<rparr>,
      foods =
        [\<lparr>Pos_food = \<lparr>X = 1, Y = 1\<rparr>, Spawned = 5200000000, Lifetime = 4000000000\<rparr>,
         \<lparr>Pos_food = \<lparr>X = 2, Y = 8\<rparr>, Spawned = 5300000000, Lifetime = 4000000000\<rparr>,
         \<lparr>Pos_food = \<lparr>X = 12, Y = 9\<rparr>, Spawned = 5400000000, Lifetime = 4000000000\<rparr>],
      grow = False, gameOver = False, lastMove = 6300000000, score = 10, lives = 3,
      nextFoodTime = 6400000000\<rparr>"

definition envD :: Env where
  "envD = poll 6400000000 [\<lparr>X = 0, Y = 0\<rparr>]"

definition resultD :: Game where
  "resultD =
     gameD\<lparr>snake := [\<lparr>X = 3, Y = 4\<rparr>, \<lparr>X = 4, Y = 4\<rparr>, \<lparr>X = 5, Y = 4\<rparr>, \<lparr>X = 6, Y = 4\<rparr>],
           lastMove := 6400000000\<rparr>"

definition envE :: Env where
  "envE = poll 6500000000 [\<lparr>X = 0, Y = 0\<rparr>]"

text \<open>
  A turn into the snake's own body: after the reset at 5.7 s (\<open>resultB\<close>) an early call
  at 5.75 s with the up key pressed turns the heading up without a step (\<open>gameT\<close>), and
  the due call at 5.8 s with the left key pressed turns it left, onto the second cell of
  the snake.
\<close>

definition envU :: Env where
  "envU = (poll 5750000000 [])\<lparr>keyArrowUp := True\<rparr>"

definition gameT :: Game where
  "gameT = resultB\<lparr>dir := \<lparr>X = 0, Y = - 1\<rparr>\<rparr>"

definition envL :: Env where
  "envL = (poll 5800000000 [\<lparr>X = 0, Y = 0\<rparr>])\<lparr>keyArrowLeft := True\<rparr>"

definition resultT :: Game where
  "resultT = resultB\<lparr>lastMove := 5800000000, lives := 1, nextFoodTime := 5800000000\<rparr>"

text \<open>
  Keys in calls that do not step: the up key 50 ms after the start, and the space key on
  the finished game \<open>resultC\<close>.
\<close>

definition envWU :: Env where
  "envWU = (poll 5050000000 [])\<lparr>keyArrowUp := True\<rparr>"

definition envS :: Env where
  "envS = (poll 10600000000 [])\<lparr>keySpace := True\<rparr>"

definition restartC :: Game where
  "restartC =
     \<lparr>snake = [\<lparr>X = 6, Y = 5\<rparr>, \<lparr>X = 5, Y = 5\<rparr>, \<lparr>X = 4, Y = 5\<rparr>],
      dir = \<lparr>X = 1, Y = 0\<rparr>, foods = [], grow = False, gameOver = False,
      lastMove = 10600000000, score = 0, lives = 3, nextFoodTime = 10600000000\<rparr>"

section \<open>Auxiliary facts\<close>

subsection \<open>The grid, the clock and the start\<close>

lemma grid_cols: "screenWidth div gridSize = 13"
  by (simp add: screenWidth_def gridSize_def)

lemma grid_rows: "screenHeight div gridSize = 10"
  by (simp add: screenHeight_def gridSize_def)

lemma init_snake:
  "snake (init t1 t2 g) = [\<lparr>X = 6, Y = 5\<rparr>, \<lparr>X = 5, Y = 5\<rparr>, \<lparr>X = 4, Y = 5\<rparr>]"
  by (simp add: init_def grid_cols grid_rows initialLen_def upt_rec)

lemma time_Sub_less:
  "minDuration < d \<Longrightarrow> d \<le> maxDuration \<Longrightarrow> (time_Sub t u < d) = (t - u < d)"
  by (auto simp: time_Sub_def Let_def)

subsection \<open>The placement loop\<close>

text \<open>
  \<open>spawnFood\<close> returns exactly when some draw is free, and then appends one item on
  the first free draw.
\<close>

lemma spawnFood_Inr:
  "spawnFood rs t g = Inr g' \<Longrightarrow>
     \<exists>pos \<in> set rs. pos \<notin> set (snake g) \<and> pos \<notin> Pos_food ` set (foods g) \<and>
       g' = g\<lparr>foods := foods g @ [\<lparr>Pos_food = pos, Spawned = t, Lifetime = 4 * Second\<rparr>]\<rparr>"
  by (induction rs) (auto split: if_splits)

lemma spawnFood_returns:
  "\<exists>pos \<in> set rs. pos \<notin> set (snake g) \<and> pos \<notin> Pos_food ` set (foods g) \<Longrightarrow>
     \<exists>g'. spawnFood rs t g = Inr g'"
  by (induction rs) auto

lemma spawnFood_Inl:
  "spawnFood rs t g = Inl e \<Longrightarrow>
     e = OutOfDraws \<and> (\<forall>pos \<in> set rs. pos \<in> set (snake g) \<or> pos \<in> Pos_food ` set (foods g))"
  by (induction rs) (auto split: if_splits)

subsection \<open>What init and main set\<close>

lemma init_frame:
  "dir (init t1 t2 g) = \<lparr>X = 1, Y = 0\<rparr>" "grow (init t1 t2 g) = False"
  "gameOver (init t1 t2 g) = False" "foods (init t1 t2 g) = []"
  "lastMove (init t1 t2 g) = t1" "nextFoodTime (init t1 t2 g) = t2"
  "score (init t1 t2 g) = score g" "lives (init t1 t2 g) = lives g"
  by (simp_all add: init_def)

lemma mainGame_fields:
  "snake (mainGame t1 t2) = [\<lparr>X = 6, Y = 5\<rparr>, \<lparr>X = 5, Y = 5\<rparr>, \<lparr>X = 4, Y = 5\<rparr>]"
  "dir (mainGame t1 t2) = \<lparr>X = 1, Y = 0\<rparr>"
  "foods (mainGame t1 t2) = []"
  "grow (mainGame t1 t2) = False"
  "gameOver (mainGame t1 t2) = False"
  "lastMove (mainGame t1 t2) = t1"
  "score (mainGame t1 t2) = 0"
  "lives (mainGame t1 t2) = 3"
  "nextFoodTime (mainGame t1 t2) = t2"
  by (simp_all add: mainGame_def init_snake) (simp_all add: init_def zeroGame_def)

subsection \<open>The spawn logic, first facts\<close>

lemma spawnLogic_cases:
  "spawnLogic env g = Inr g' \<Longrightarrow>
     g' = g \<or>
     (\<exists>pos \<in> set (draws env). pos \<notin> set (snake g) \<and> pos \<notin> Pos_food ` set (foods g) \<and>
        length (foods g) < 4 \<and>
        g' = g\<lparr>foods := foods g @ [\<lparr>Pos_food = pos, Spawned = nowSpawn env, Lifetime = 4 * Second\<rparr>],
               nextFoodTime := (if length (foods g) + 1 < 4 then nowFrame env
                                else time_Add (nowFrame env) (1 * Second))\<rparr>)"
  unfolding spawnLogic_def Let_def
  by (auto split: if_splits sum.splits dest!: spawnFood_Inr)

lemma spawnLogic_returns:
  "\<exists>pos \<in> set (draws env). pos \<notin> set (snake g) \<and> pos \<notin> Pos_food ` set (foods g) \<Longrightarrow>
     \<exists>g'. spawnLogic env g = Inr g'"
  using spawnFood_returns [of "draws env" g "nowSpawn env"]
  unfolding spawnLogic_def Let_def
  by (auto split: sum.splits)

subsection \<open>The branches of Update\<close>

text \<open>
  The five ways in which \<open>Update\<close> returns: a new session, a finished game left
  alone, a call that comes too early, a collision, and a move.
\<close>

lemma Update_Inr_cases [consumes 1, case_names restart idle wait collide move]:
  assumes "Update env g = Inr g'"
  obtains
    "gameOver g" "keySpace env"
      "g' = init (nowInit1 env) (nowInit2 env) (g\<lparr>lives := 3, score := 0\<rparr>)"
  | "gameOver g" "\<not> keySpace env" "g' = g"
  | "\<not> gameOver g" "time_Sub (nowSince env) (lastMove g) < 100 * Millisecond"
      "g' = g\<lparr>dir := directionInput env (dir g)\<rparr>"
  | h rest nh where "\<not> gameOver g"
      "\<not> time_Sub (nowSince env) (lastMove g) < 100 * Millisecond"
      "snake g = h # rest"
      "nh = \<lparr>X = X h + X (directionInput env (dir g)), Y = Y h + Y (directionInput env (dir g))\<rparr>"
      "hitsWall nh \<or> nh \<in> set (snake g)"
      "g' = loseLife env (g\<lparr>dir := directionInput env (dir g), lastMove := nowMove env\<rparr>)"
  | h rest nh where "\<not> gameOver g"
      "\<not> time_Sub (nowSince env) (lastMove g) < 100 * Millisecond"
      "snake g = h # rest"
      "nh = \<lparr>X = X h + X (directionInput env (dir g)), Y = Y h + Y (directionInput env (dir g))\<rparr>"
      "\<not> hitsWall nh" "nh \<notin> set (snake g)"
      "spawnLogic env (expireFood (nowFrame env) (trimTail (eatFood nh
          (g\<lparr>dir := directionInput env (dir g), lastMove := nowMove env,
             snake := nh # snake g\<rparr>)))) = Inr g'"
  using assms unfolding Update_def Let_def
  by (auto split: if_splits list.splits)

lemma Update_collide:
  assumes "\<not> gameOver g" "\<not> time_Sub (nowSince env) (lastMove g) < 100 * Millisecond"
    "snake g = h # rest"
    "nh = \<lparr>X = X h + X (directionInput env (dir g)), Y = Y h + Y (directionInput env (dir g))\<rparr>"
    "hitsWall nh \<or> nh \<in> set (snake g)"
  shows "Update env g =
    Inr (loseLife env (g\<lparr>dir := directionInput env (dir g), lastMove := nowMove env\<rparr>))"
  using assms unfolding Update_def Let_def by auto

lemma Update_move:
  assumes "\<not> gameOver g" "\<not> time_Sub (nowSince env) (lastMove g) < 100 * Millisecond"
    "snake g = h # rest"
    "nh = \<lparr>X = X h + X (directionInput env (dir g)), Y = Y h + Y (directionInput env (dir g))\<rparr>"
    "\<not> hitsWall nh" "nh \<notin> set (snake g)"
  shows "Update env g =
    spawnLogic env (expireFood (nowFrame env) (trimTail (eatFood nh
          (g\<lparr>dir := directionInput env (dir g), lastMove := nowMove env,
             snake := nh # snake g\<rparr>))))"
  using assms unfolding Update_def Let_def by auto

subsection \<open>Eating, trimming and expiry\<close>

lemma ateFoodIndex_None: "(ateFoodIndex p fs = None) = (p \<notin> Pos_food ` set fs)"
  by (induction fs) auto

lemma ateFoodIndex_Some:
  "ateFoodIndex p fs = Some i \<Longrightarrow> i < length fs \<and> Pos_food (fs ! i) = p"
  by (induction fs arbitrary: i) (auto split: if_splits)

lemma set_remove_index: "set (take i fs @ drop (Suc i) fs) \<subseteq> set fs"
  by (auto dest: in_set_takeD in_set_dropD)

lemma distinct_remove_index:
  "distinct (map k fs) \<Longrightarrow> distinct (map k (take i fs @ drop (Suc i) fs))"
proof (induction fs arbitrary: i)
  case Nil
  then show ?case by simp
next
  case (Cons f fs)
  show ?case
  proof (cases i)
    case 0
    with Cons.prems show ?thesis by simp
  next
    case (Suc j)
    have "set (take j fs @ drop (Suc j) fs) \<subseteq> set fs"
      by (rule set_remove_index)
    with Cons.prems Cons.IH [of j] Suc show ?thesis by auto
  qed
qed

lemma member_remove_index:
  "f \<in> set fs \<Longrightarrow> f \<noteq> fs ! i \<Longrightarrow> f \<in> set (take i fs @ drop (Suc i) fs)"
proof -
  assume f: "f \<in> set fs" and n: "f \<noteq> fs ! i"
  then obtain j where j: "j < length fs" "fs ! j = f"
    by (auto simp: in_set_conv_nth)
  with n have "j \<noteq> i" by auto
  then consider "j < i" | "i < j" by linarith
  then show ?thesis
  proof cases
    case 1
    with j have "f \<in> set (take i fs)"
      by (auto simp: in_set_conv_nth intro!: exI [of _ j])
    then show ?thesis by simp
  next
    case 2
    with j have "f = drop (Suc i) fs ! (j - Suc i)" "j - Suc i < length (drop (Suc i) fs)"
      by auto
    then have "f \<in> set (drop (Suc i) fs)"
      using nth_mem by blast
    then show ?thesis by simp
  qed
qed

lemma eatFood_frame:
  "snake (eatFood p g) = snake g" "dir (eatFood p g) = dir g"
  "gameOver (eatFood p g) = gameOver g" "lastMove (eatFood p g) = lastMove g"
  "lives (eatFood p g) = lives g" "nextFoodTime (eatFood p g) = nextFoodTime g"
  by (simp_all add: eatFood_def split: option.splits)

lemma eatFood_score:
  "score (eatFood p g) = (if p \<in> Pos_food ` set (foods g) then score g + 10 else score g)"
  using ateFoodIndex_None [of p "foods g"]
  by (auto simp: eatFood_def split: option.splits)

lemma eatFood_grow:
  "grow (eatFood p g) = (grow g \<or> p \<in> Pos_food ` set (foods g))"
  using ateFoodIndex_None [of p "foods g"]
  by (auto simp: eatFood_def split: option.splits)

lemma eatFood_foods_subset: "set (foods (eatFood p g)) \<subseteq> set (foods g)"
  using set_remove_index [of _ "foods g"]
  by (auto simp: eatFood_def split: option.splits)

lemma eatFood_foods_length: "length (foods (eatFood p g)) \<le> length (foods g)"
  by (auto simp: eatFood_def split: option.splits)

lemma eatFood_foods_distinct:
  "distinct (map Pos_food (foods g)) \<Longrightarrow> distinct (map Pos_food (foods (eatFood p g)))"
  using distinct_remove_index [of Pos_food "foods g"]
  by (auto simp: eatFood_def split: option.splits)

lemma eatFood_keeps:
  "f \<in> set (foods g) \<Longrightarrow> Pos_food f \<noteq> p \<Longrightarrow> f \<in> set (foods (eatFood p g))"
proof (cases "ateFoodIndex p (foods g)")
  case None
  then show "f \<in> set (foods g) \<Longrightarrow> f \<in> set (foods (eatFood p g))"
    by (simp add: eatFood_def)
next
  case (Some i)
  assume f: "f \<in> set (foods g)" "Pos_food f \<noteq> p"
  from ateFoodIndex_Some [OF Some] f have "f \<noteq> foods g ! i" by auto
  with f member_remove_index [of f "foods g" i] Some show ?thesis
    by (simp add: eatFood_def)
qed

lemma trimTail_frame:
  "foods (trimTail g) = foods g" "dir (trimTail g) = dir g"
  "gameOver (trimTail g) = gameOver g" "lastMove (trimTail g) = lastMove g"
  "lives (trimTail g) = lives g" "nextFoodTime (trimTail g) = nextFoodTime g"
  "score (trimTail g) = score g" "grow (trimTail g) = False"
  "snake (trimTail g) = (if grow g then snake g else butlast (snake g))"
  by (simp_all add: trimTail_def)

lemma expireFood_frame:
  "snake (expireFood now g) = snake g" "dir (expireFood now g) = dir g"
  "gameOver (expireFood now g) = gameOver g" "lastMove (expireFood now g) = lastMove g"
  "lives (expireFood now g) = lives g" "nextFoodTime (expireFood now g) = nextFoodTime g"
  "score (expireFood now g) = score g" "grow (expireFood now g) = grow g"
  "foods (expireFood now g) =
     filter (\<lambda>food. time_Sub now (Spawned food) < Lifetime food) (foods g)"
  by (simp_all add: expireFood_def)

subsection \<open>What the spawn logic and a lost life leave alone\<close>

lemma spawnLogic_frame:
  assumes "spawnLogic env g = Inr g'"
  shows "snake g' = snake g" "dir g' = dir g" "gameOver g' = gameOver g"
    "lastMove g' = lastMove g" "lives g' = lives g" "score g' = score g" "grow g' = grow g"
  using spawnLogic_cases [OF assms] by auto

lemma loseLife_frame:
  "lives (loseLife env g) = lives g - 1" "score (loseLife env g) = score g"
  "gameOver (loseLife env g) = (\<not> 0 < lives g - 1)"
  "snake (loseLife env g) =
     (if 0 < lives g - 1 then [\<lparr>X = 6, Y = 5\<rparr>, \<lparr>X = 5, Y = 5\<rparr>, \<lparr>X = 4, Y = 5\<rparr>] else snake g)"
  "foods (loseLife env g) = (if 0 < lives g - 1 then [] else foods g)"
  "dir (loseLife env g) = (if 0 < lives g - 1 then \<lparr>X = 1, Y = 0\<rparr> else dir g)"
  "lastMove (loseLife env g) = (if 0 < lives g - 1 then nowInit1 env else lastMove g)"
  "nextFoodTime (loseLife env g) = (if 0 < lives g - 1 then nowInit2 env else nextFoodTime g)"
  "grow (loseLife env g) = (if 0 < lives g - 1 then False else grow g)"
  by (simp_all add: loseLife_def Let_def init_snake) (simp_all add: init_def)

subsection \<open>The game after a move, before the spawn logic\<close>

lemma moved_snake:
  "snake (expireFood now (trimTail (eatFood nh (g\<lparr>snake := nh # s\<rparr>)))) =
     (if grow g \<or> nh \<in> Pos_food ` set (foods g) then nh # s else butlast (nh # s))"
  by (simp add: expireFood_frame trimTail_frame eatFood_frame eatFood_grow)

lemma moved_foods:
  "foods (expireFood now (trimTail (eatFood nh g))) =
     filter (\<lambda>food. time_Sub now (Spawned food) < Lifetime food) (foods (eatFood nh g))"
  by (simp add: expireFood_frame trimTail_frame)

lemma moved_frame:
  "lives (expireFood now (trimTail (eatFood nh g))) = lives g"
  "gameOver (expireFood now (trimTail (eatFood nh g))) = gameOver g"
  "dir (expireFood now (trimTail (eatFood nh g))) = dir g"
  "lastMove (expireFood now (trimTail (eatFood nh g))) = lastMove g"
  "nextFoodTime (expireFood now (trimTail (eatFood nh g))) = nextFoodTime g"
  "score (expireFood now (trimTail (eatFood nh g))) =
     (if nh \<in> Pos_food ` set (foods g) then score g + 10 else score g)"
  by (simp_all add: expireFood_frame trimTail_frame eatFood_frame eatFood_score)

subsection \<open>Invariants of Update\<close>

lemma Update_snake_inv:
  assumes U: "Update env g = Inr g'" and inv: "distinct (snake g)" "3 \<le> length (snake g)"
  shows "distinct (snake g') \<and> 3 \<le> length (snake g')"
  using U
proof (cases rule: Update_Inr_cases)
  case restart
  then show ?thesis by (simp add: init_snake)
next
  case idle
  with inv show ?thesis by simp
next
  case wait
  with inv show ?thesis by simp
next
  case (collide h rest nh)
  with inv show ?thesis by (simp add: loseLife_frame)
next
  case (move h rest nh)
  from spawnLogic_frame(1) [OF move(7)]
  have "snake g' = (if grow g \<or> nh \<in> Pos_food ` set (foods g) then nh # snake g
                    else butlast (nh # snake g))"
    by (simp add: moved_snake)
  moreover have "distinct (nh # snake g)"
    using inv move(6) by simp
  ultimately show ?thesis
    using inv distinct_butlast [of "nh # snake g"] by (auto simp del: butlast.simps)
qed

lemma run_snake_inv:
  "run envs g = Inr g' \<Longrightarrow> distinct (snake g) \<Longrightarrow> 3 \<le> length (snake g) \<Longrightarrow>
     distinct (snake g') \<and> 3 \<le> length (snake g')"
proof (induction envs arbitrary: g)
  case Nil
  then show ?case by simp
next
  case (Cons env envs)
  then obtain g1 where g1: "Update env g = Inr g1" "run envs g1 = Inr g'"
    by (auto split: sum.splits)
  from Update_snake_inv [OF g1(1) Cons.prems(2,3)] Cons.IH [OF g1(2)] show ?case
    by simp
qed

lemma Update_food_inv:
  assumes U: "Update env g = Inr g'" and rs: "drawsInRange env"
    and inv: "length (foods g) \<le> 4" "distinct (map Pos_food (foods g))"
      "\<forall>f \<in> set (foods g). inGrid (Pos_food f)"
  shows "length (foods g') \<le> 4 \<and> distinct (map Pos_food (foods g')) \<and>
     (\<forall>f \<in> set (foods g'). inGrid (Pos_food f))"
  using U
proof (cases rule: Update_Inr_cases)
  case restart
  then show ?thesis by (simp add: init_frame)
next
  case idle
  with inv show ?thesis by simp
next
  case wait
  with inv show ?thesis by simp
next
  case (collide h rest nh)
  with inv show ?thesis by (simp add: loseLife_frame)
next
  case (move h rest nh)
  let ?g2 = "g\<lparr>dir := directionInput env (dir g), lastMove := nowMove env, snake := nh # snake g\<rparr>"
  let ?g5 = "expireFood (nowFrame env) (trimTail (eatFood nh ?g2))"
  have sub: "set (foods ?g5) \<subseteq> set (foods g)"
    using eatFood_foods_subset [of nh ?g2] by (auto simp: moved_foods)
  have "length (foods ?g5) \<le> length (foods (eatFood nh ?g2))"
    by (simp add: moved_foods)
  also have "\<dots> \<le> length (foods g)"
    using eatFood_foods_length [of nh ?g2] by simp
  finally have len: "length (foods ?g5) \<le> 4"
    using inv(1) by simp
  have dist: "distinct (map Pos_food (foods ?g5))"
    using eatFood_foods_distinct [of ?g2 nh] inv(2)
    by (simp add: moved_foods distinct_map_filter)
  from spawnLogic_cases [OF move(7)] show ?thesis
  proof
    assume "g' = ?g5"
    with sub len dist inv(3) show ?thesis by auto
  next
    assume "\<exists>pos \<in> set (draws env). pos \<notin> set (snake ?g5) \<and> pos \<notin> Pos_food ` set (foods ?g5) \<and>
        length (foods ?g5) < 4 \<and>
        g' = ?g5\<lparr>foods := foods ?g5 @ [\<lparr>Pos_food = pos, Spawned = nowSpawn env, Lifetime = 4 * Second\<rparr>],
               nextFoodTime := (if length (foods ?g5) + 1 < 4 then nowFrame env
                                else time_Add (nowFrame env) (1 * Second))\<rparr>"
    then obtain pos where pos: "pos \<in> set (draws env)" "pos \<notin> Pos_food ` set (foods ?g5)"
      "length (foods ?g5) < 4"
      and g': "foods g' = foods ?g5 @ [\<lparr>Pos_food = pos, Spawned = nowSpawn env, Lifetime = 4 * Second\<rparr>]"
      by auto
    from pos(1) rs have "inGrid pos"
      by (simp add: drawsInRange_def list_all_iff)
    with pos sub dist inv(3) show ?thesis
      unfolding g' by auto
  qed
qed

lemma run_food_inv:
  "run envs g = Inr g' \<Longrightarrow> list_all drawsInRange envs \<Longrightarrow>
   length (foods g) \<le> 4 \<Longrightarrow> distinct (map Pos_food (foods g)) \<Longrightarrow>
   \<forall>f \<in> set (foods g). inGrid (Pos_food f) \<Longrightarrow>
     length (foods g') \<le> 4 \<and> distinct (map Pos_food (foods g')) \<and>
     (\<forall>f \<in> set (foods g'). inGrid (Pos_food f))"
proof (induction envs arbitrary: g)
  case Nil
  then show ?case by simp
next
  case (Cons env envs)
  then obtain g1 where g1: "Update env g = Inr g1" "run envs g1 = Inr g'"
    by (auto split: sum.splits)
  from Cons.prems(2) have rs: "drawsInRange env" "list_all drawsInRange envs"
    by simp_all
  from Update_food_inv [OF g1(1) rs(1) Cons.prems(3,4,5)] Cons.IH [OF g1(2) rs(2)]
  show ?case by simp
qed

lemma Update_spawned_off_snake:
  assumes U: "Update env g = Inr g'" and f: "f \<in> set (foods g')" "f \<notin> set (foods g)"
  shows "Pos_food f \<notin> set (snake g')"
  using U
proof (cases rule: Update_Inr_cases)
  case restart
  with f show ?thesis by (simp add: init_frame)
next
  case idle
  with f show ?thesis by simp
next
  case wait
  with f show ?thesis by simp
next
  case (collide h rest nh)
  with f show ?thesis by (simp add: loseLife_frame split: if_splits)
next
  case (move h rest nh)
  let ?g2 = "g\<lparr>dir := directionInput env (dir g), lastMove := nowMove env, snake := nh # snake g\<rparr>"
  let ?g5 = "expireFood (nowFrame env) (trimTail (eatFood nh ?g2))"
  have sub: "set (foods ?g5) \<subseteq> set (foods g)"
    using eatFood_foods_subset [of nh ?g2] by (auto simp: moved_foods)
  from spawnLogic_cases [OF move(7)] sub f show ?thesis
    by auto
qed

lemma Update_lives_inv:
  assumes U: "Update env g = Inr g'"
    and inv: "gameOver g \<longrightarrow> lives g = 0" "\<not> gameOver g \<longrightarrow> 1 \<le> lives g"
  shows "(gameOver g' \<longrightarrow> lives g' = 0) \<and> (\<not> gameOver g' \<longrightarrow> 1 \<le> lives g')"
  using U
proof (cases rule: Update_Inr_cases)
  case restart
  then show ?thesis by (simp add: init_frame)
next
  case idle
  with inv show ?thesis by simp
next
  case wait
  with inv show ?thesis by simp
next
  case (collide h rest nh)
  with inv show ?thesis by (auto simp: loseLife_frame)
next
  case (move h rest nh)
  from spawnLogic_frame [OF move(7)] move(1) inv show ?thesis
    by (simp add: moved_frame)
qed

lemma run_lives_inv:
  "run envs g = Inr g' \<Longrightarrow> gameOver g \<longrightarrow> lives g = 0 \<Longrightarrow> \<not> gameOver g \<longrightarrow> 1 \<le> lives g \<Longrightarrow>
     (gameOver g' \<longrightarrow> lives g' = 0) \<and> (\<not> gameOver g' \<longrightarrow> 1 \<le> lives g')"
proof (induction envs arbitrary: g)
  case Nil
  then show ?case by simp
next
  case (Cons env envs)
  then obtain g1 where g1: "Update env g = Inr g1" "run envs g1 = Inr g'"
    by (auto split: sum.splits)
  from Update_lives_inv [OF g1(1) Cons.prems(2,3)] Cons.IH [OF g1(2)] show ?case
    by simp
qed

lemma Update_gameOver_iff:
  assumes U: "Update env g = Inr g'" and playing: "\<not> gameOver g"
    and d: "d = directionInput env (dir g)"
    and nh: "nh = \<lparr>X = X (hd (snake g)) + X d, Y = Y (hd (snake g)) + Y d\<rparr>"
  shows "gameOver g' =
     (\<not> time_Sub (nowSince env) (lastMove g) < 100 * Millisecond \<and>
      (hitsWall nh \<or> nh \<in> set (snake g)) \<and> \<not> 0 < lives g - 1)"
  using U
proof (cases rule: Update_Inr_cases)
  case restart
  with playing show ?thesis by simp
next
  case idle
  with playing show ?thesis by simp
next
  case wait
  with playing show ?thesis by simp
next
  case (collide h rest nh')
  with d nh show ?thesis by (auto simp: loseLife_frame)
next
  case (move h rest nh')
  from spawnLogic_frame [OF move(7)] move d nh playing show ?thesis
    by (simp add: moved_frame)
qed

subsection \<open>Update returns\<close>

lemma Update_returns:
  assumes playing: "\<not> gameOver g" and snake: "snake g = h # rest"
    and nh: "nh = \<lparr>X = X h + X (directionInput env (dir g)), Y = Y h + Y (directionInput env (dir g))\<rparr>"
    and free: "\<exists>pos \<in> set (draws env). pos \<noteq> nh \<and> pos \<notin> set (snake g) \<and>
        pos \<notin> Pos_food ` set (foods g)"
  shows "\<exists>g'. Update env g = Inr g'"
proof -
  consider "time_Sub (nowSince env) (lastMove g) < 100 * Millisecond"
    | "\<not> time_Sub (nowSince env) (lastMove g) < 100 * Millisecond" "hitsWall nh \<or> nh \<in> set (snake g)"
    | "\<not> time_Sub (nowSince env) (lastMove g) < 100 * Millisecond" "\<not> hitsWall nh" "nh \<notin> set (snake g)"
    by blast
  then show ?thesis
  proof cases
    case 1
    with playing show ?thesis by (simp add: Update_def Let_def)
  next
    case 2
    with Update_collide [OF playing 2(1) snake nh] show ?thesis by simp
  next
    case 3
    let ?g2 = "g\<lparr>dir := directionInput env (dir g), lastMove := nowMove env, snake := nh # snake g\<rparr>"
    let ?g5 = "expireFood (nowFrame env) (trimTail (eatFood nh ?g2))"
    have "set (foods ?g5) \<subseteq> set (foods g)"
      using eatFood_foods_subset [of nh ?g2] by (auto simp: moved_foods)
    moreover have "set (snake ?g5) \<subseteq> set (nh # snake g)"
      using in_set_butlastD [of _ "nh # snake g"] by (auto simp: moved_snake simp del: butlast.simps)
    ultimately have "\<exists>pos \<in> set (draws env). pos \<notin> set (snake ?g5) \<and> pos \<notin> Pos_food ` set (foods ?g5)"
      using free by (auto simp del: butlast.simps)
    from spawnLogic_returns [OF this] Update_move [OF playing 3(1) snake nh 3(2,3)]
    show ?thesis by simp
  qed
qed

lemma Update_due_lastMove:
  assumes U: "Update env g = Inr g'" and playing: "\<not> gameOver g"
    and due: "\<not> time_Sub (nowSince env) (lastMove g) < 100 * Millisecond"
  shows "lastMove g' = nowMove env \<or> lastMove g' = nowInit1 env"
  using U
proof (cases rule: Update_Inr_cases)
  case (collide h rest nh)
  then show ?thesis by (simp add: loseLife_frame)
next
  case (move h rest nh)
  from spawnLogic_frame(4) [OF move(7)] show ?thesis
    by (simp add: moved_frame)
qed (use playing due in simp_all)

subsection \<open>The spawn logic, gate and deadline\<close>

lemma spawnLogic_idle:
  "\<not> (length (foods g) < 4 \<and> (nextFoodTime g = 0 \<or> nextFoodTime g < nowFrame env)) \<Longrightarrow>
     spawnLogic env g = Inr g"
  by (auto simp: spawnLogic_def Let_def time_IsZero_def time_After_def)

lemma spawnLogic_attempt:
  assumes "length (foods g) < 4" "nextFoodTime g = 0 \<or> nextFoodTime g < nowFrame env"
  shows "spawnLogic env g = Inl OutOfDraws \<or>
     (\<exists>pos \<in> set (draws env). pos \<notin> set (snake g) \<and> pos \<notin> Pos_food ` set (foods g) \<and>
        spawnLogic env g =
          Inr (g\<lparr>foods := foods g @
                   [\<lparr>Pos_food = pos, Spawned = nowSpawn env, Lifetime = 4 * Second\<rparr>],
                 nextFoodTime := (if length (foods g) + 1 < 4 then nowFrame env
                                  else nowFrame env + 1000000000)\<rparr>))"
proof (cases "spawnFood (draws env) (nowSpawn env) g")
  case (Inl e)
  with spawnFood_Inl [OF Inl] assms show ?thesis
    by (simp add: spawnLogic_def Let_def time_IsZero_def time_After_def)
next
  case (Inr g1)
  from spawnFood_Inr [OF Inr] obtain pos where pos: "pos \<in> set (draws env)"
    "pos \<notin> set (snake g)" "pos \<notin> Pos_food ` set (foods g)"
    "g1 = g\<lparr>foods := foods g @ [\<lparr>Pos_food = pos, Spawned = nowSpawn env, Lifetime = 4 * Second\<rparr>]\<rparr>"
    by blast
  with Inr assms have "spawnLogic env g =
          Inr (g\<lparr>foods := foods g @
                   [\<lparr>Pos_food = pos, Spawned = nowSpawn env, Lifetime = 4 * Second\<rparr>],
                 nextFoodTime := (if length (foods g) + 1 < 4 then nowFrame env
                                  else nowFrame env + 1000000000)\<rparr>)"
    by (simp add: spawnLogic_def Let_def time_IsZero_def time_After_def time_Add_def
        Second_def Millisecond_def)
  with pos show ?thesis by blast
qed

lemma spawnLogic_spawns:
  assumes "length (foods g) < 4" "nextFoodTime g = 0 \<or> nextFoodTime g < nowFrame env"
    and "\<exists>pos \<in> set (draws env). pos \<notin> set (snake g) \<and> pos \<notin> Pos_food ` set (foods g)"
  shows "\<exists>pos \<in> set (draws env). pos \<notin> set (snake g) \<and> pos \<notin> Pos_food ` set (foods g) \<and>
        spawnLogic env g =
          Inr (g\<lparr>foods := foods g @
                   [\<lparr>Pos_food = pos, Spawned = nowSpawn env, Lifetime = 4 * Second\<rparr>],
                 nextFoodTime := (if length (foods g) + 1 < 4 then nowFrame env
                                  else nowFrame env + 1000000000)\<rparr>)"
  using spawnLogic_attempt [OF assms(1,2)] spawnLogic_returns [OF assms(3)] by auto



subsection \<open>The stored integers stay small\<close>

lemma cells_in_grid_bound:
  assumes "distinct cs" and "\<forall>c \<in> set cs. inGrid c"
  shows "length cs \<le> 130"
proof -
  let ?G = "(\<lambda>(x, y). \<lparr>X = x, Y = y\<rparr>) ` ({0..<13} \<times> {0..<10})"
  have "set cs \<subseteq> ?G"
  proof
    fix c assume "c \<in> set cs"
    with assms(2) have "inGrid c" by blast
    then have "(X c, Y c) \<in> {0..<13} \<times> {0..<10}"
      by (simp add: inGrid_def grid_cols grid_rows)
    moreover have "c = (\<lambda>(x, y). \<lparr>X = x, Y = y\<rparr>) (X c, Y c)"
      by simp
    ultimately show "c \<in> ?G" by (rule rev_image_eqI)
  qed
  moreover have "finite ?G" by simp
  ultimately have "card (set cs) \<le> card ?G"
    by (rule card_mono [rotated])
  also have "\<dots> \<le> card (({0..<13} \<times> {0..<10}) :: (int \<times> int) set)"
    by (rule card_image_le) simp
  also have "\<dots> = 130"
    by (simp add: card_cartesian_product)
  finally show ?thesis
    using assms(1) by (simp add: distinct_card)
qed

lemma units_in_range:
  "\<lparr>X = 0, Y = - 1\<rparr> \<in> range delta" "\<lparr>X = 0, Y = 1\<rparr> \<in> range delta"
  "\<lparr>X = - 1, Y = 0\<rparr> \<in> range delta" "\<lparr>X = 1, Y = 0\<rparr> \<in> range delta"
proof -
  have "delta Up \<in> range delta" "delta Down \<in> range delta"
    "delta Left \<in> range delta" "delta Right \<in> range delta"
    by (rule rangeI)+
  then show "\<lparr>X = 0, Y = - 1\<rparr> \<in> range delta" "\<lparr>X = 0, Y = 1\<rparr> \<in> range delta"
    "\<lparr>X = - 1, Y = 0\<rparr> \<in> range delta" "\<lparr>X = 1, Y = 0\<rparr> \<in> range delta"
    by simp_all
qed

lemma directionInput_range: "d \<in> range delta \<Longrightarrow> directionInput env d \<in> range delta"
  by (simp add: directionInput_def units_in_range)

lemma Update_small:
  assumes U: "Update env g = Inr g'" and s: "small g"
  shows "small g'"
  using U
proof (cases rule: Update_Inr_cases)
  case restart
  then show ?thesis
    by (simp add: small_def init_frame init_snake inGrid_def grid_cols grid_rows units_in_range)
next
  case idle
  with s show ?thesis by simp
next
  case wait
  with s directionInput_range [of "dir g" env] show ?thesis
    by (simp add: small_def)
next
  case (collide h rest nh)
  note r = units_in_range(4)
  from s have len: "int (length (snake g)) \<le> 130"
    using cells_in_grid_bound [of "snake g"] by (simp add: small_def)
  show ?thesis
  proof (cases "0 < lives g - 1")
    case True
    with collide s len r show ?thesis
      by (simp add: small_def loseLife_frame inGrid_def grid_cols grid_rows)
  next
    case False
    with collide s directionInput_range [of "dir g" env] show ?thesis
      by (simp add: small_def loseLife_frame)
  qed
next
  case (move h rest nh)
  let ?g2 = "g\<lparr>dir := directionInput env (dir g), lastMove := nowMove env, snake := nh # snake g\<rparr>"
  let ?g5 = "expireFood (nowFrame env) (trimTail (eatFood nh ?g2))"
  let ?ate = "nh \<in> Pos_food ` set (foods g)"
  from s have g: "\<not> grow g" "distinct (snake g)" "3 \<le> length (snake g)"
    "\<forall>c \<in> set (snake g). inGrid c"
    by (simp_all add: small_def)
  have nh: "inGrid nh"
    using move(5) by (auto simp: hitsWall_def inGrid_def)
  have sn: "snake g' = (if ?ate then nh # snake g else butlast (nh # snake g))"
    using spawnLogic_frame(1) [OF move(7)] g(1) by (simp add: moved_snake)
  have sc: "score g' = (if ?ate then score g + 10 else score g)"
    using spawnLogic_frame(6) [OF move(7)] by (simp add: moved_frame)
  have fr: "lives g' = lives g" "gameOver g' = gameOver g" "dir g' = directionInput env (dir g)"
    using spawnLogic_frame [OF move(7)] by (simp_all add: moved_frame)
  have gr: "\<not> grow g'"
    using spawnLogic_frame(7) [OF move(7)] by (simp add: expireFood_frame(8) trimTail_frame(8))
  have d: "distinct (nh # snake g)"
    using g(2) move(6) by simp
  have cells: "\<forall>c \<in> set (snake g'). inGrid c"
    using nh g(4) in_set_butlastD [of _ "nh # snake g"]
    by (auto simp: sn simp del: butlast.simps)
  have dist: "distinct (snake g')"
    using d distinct_butlast [of "nh # snake g"] by (simp add: sn del: butlast.simps)
  have len: "length (snake g') = (if ?ate then length (snake g) + 1 else length (snake g))"
    by (simp add: sn)
  from s cells dist len sc fr gr directionInput_range [of "dir g" env] show ?thesis
    by (simp add: small_def)
qed

lemma run_small: "run envs g = Inr g' \<Longrightarrow> small g \<Longrightarrow> small g'"
proof (induction envs arbitrary: g)
  case Nil
  then show ?case by simp
next
  case (Cons env envs)
  then obtain g1 where g1: "Update env g = Inr g1" "run envs g1 = Inr g'"
    by (auto split: sum.splits)
  from Update_small [OF g1(1) Cons.prems(2)] Cons.IH [OF g1(2)] show ?case
    by simp
qed

lemma mainGame_small: "small (mainGame t1 t2)"
  by (simp add: small_def mainGame_fields inGrid_def grid_cols grid_rows units_in_range)

lemma reachable_values_small:
  assumes "run envs (mainGame t1 t2) = Inr g"
  shows "(\<forall>c \<in> set (snake g). 0 \<le> X c \<and> X c < 13 \<and> 0 \<le> Y c \<and> Y c < 10) \<and>
     length (snake g) \<le> 130 \<and> dir g \<in> range delta \<and>
     0 \<le> lives g \<and> lives g \<le> 3 \<and> 0 \<le> score g \<and> score g \<le> 5080"
proof -
  from run_small [OF assms mainGame_small] have s: "small g" .
  then have len: "length (snake g) \<le> 130"
    using cells_in_grid_bound [of "snake g"] by (simp add: small_def)
  with s show ?thesis
    by (simp add: small_def inGrid_def grid_cols grid_rows)
qed

subsection \<open>The draws matter to the placement loop only\<close>

lemma directionInput_draws: "directionInput (env\<lparr>draws := rs\<rparr>) p = directionInput env p"
  by (simp add: directionInput_def)

lemma loseLife_draws: "loseLife (env\<lparr>draws := rs\<rparr>) g = loseLife env g"
  by (simp add: loseLife_def Let_def)

lemma eatFood_foods_frame:
  "foods (eatFood p (g\<lparr>dir := d, lastMove := t, snake := s\<rparr>)) = foods (eatFood p g)"
  by (simp add: eatFood_def split: option.splits)

lemma spawnLogic_no_draws:
  "(spawnLogic (env\<lparr>draws := []\<rparr>) g = Inl OutOfDraws) =
     (length (foods g) < 4 \<and> (nextFoodTime g = 0 \<or> nextFoodTime g < nowFrame env))"
  by (auto simp: spawnLogic_def Let_def time_IsZero_def time_After_def)

subsection \<open>The model evaluated on the concrete inputs\<close>

lemmas eval_defs =
  Update_def Let_def directionInput_def time_Sub_def time_After_def time_IsZero_def
  time_Add_def maxDuration_def minDuration_def Millisecond_def Second_def hitsWall_def
  loseLife_def init_def screenWidth_def screenHeight_def gridSize_def initialLen_def upt_rec
  eatFood_def trimTail_def expireFood_def spawnLogic_def mainGame_def zeroGame_def poll_def

lemma gameB_reachable: "run envsB (mainGame 5000000000 5000000000) = Inr gameB"
  by (simp add: envsB_def gameB_def eval_defs)

lemma gameC_reachable: "run envsC (mainGame 5000000000 5000000000) = Inr gameC"
  by (simp add: envsC_def envsB_def gameC_def foodC_def foodC2_def eval_defs)

lemma gameD_reachable: "run envsD (mainGame 5000000000 5000000000) = Inr gameD"
  by (simp add: envsD_def gameD_def eval_defs)

lemma Update_envC: "Update envC gameC = Inr resultC"
  by (simp add: envC_def gameC_def resultC_def foodC_def foodC2_def eval_defs)

lemma Update_envD: "Update envD gameD = Inr resultD"
  by (simp add: envD_def gameD_def resultD_def eval_defs)

lemma gameT_reachable: "run (envsB @ [envB, envU]) (mainGame 5000000000 5000000000) = Inr gameT"
  by (simp add: envsB_def envB_def envU_def gameT_def resultB_def eval_defs)

lemma resultC_reachable:
  "run (envsC @ [envC]) (mainGame 5000000000 5000000000) = Inr resultC"
  by (simp add: envsC_def envsB_def envC_def gameC_def resultC_def foodC_def foodC2_def eval_defs)

section \<open>Scenario A: eating\<close>

text \<open>
  C1. The game \<open>main\<close> builds has the snake on (6,5), (5,5), (4,5), heading right, and
  score 0. Put one food item on (7,5). A call of \<open>Update\<close> at least 100 ms (100000000 ns)
  after the last move, with neither the up nor the down key pressed (so that the heading
  stays right), and with a draw that is off the moved snake for the spawn that may follow,
  returns a game whose snake is (7,5), (6,5), (5,5), (4,5), whose food list holds neither
  that item nor any item on (7,5), and whose score is 10.
\<close>

theorem scenario_A_eats_food:
  assumes g: "g = (mainGame t1 t2)\<lparr>foods := [f]\<rparr>"
    and f: "Pos_food f = \<lparr>X = 7, Y = 5\<rparr>"
    and keys: "\<not> keyArrowUp env" "\<not> keyArrowDown env"
    and due: "100000000 \<le> nowSince env - t1"
    and free: "\<exists>pos \<in> set (draws env).
        pos \<notin> set [\<lparr>X = 7, Y = 5\<rparr>, \<lparr>X = 6, Y = 5\<rparr>, \<lparr>X = 5, Y = 5\<rparr>, \<lparr>X = 4, Y = 5\<rparr>]"
  shows "snake g = [\<lparr>X = 6, Y = 5\<rparr>, \<lparr>X = 5, Y = 5\<rparr>, \<lparr>X = 4, Y = 5\<rparr>] \<and>
         dir g = \<lparr>X = 1, Y = 0\<rparr> \<and> score g = 0 \<and>
         (\<exists>g'. Update env g = Inr g' \<and>
            snake g' = [\<lparr>X = 7, Y = 5\<rparr>, \<lparr>X = 6, Y = 5\<rparr>, \<lparr>X = 5, Y = 5\<rparr>, \<lparr>X = 4, Y = 5\<rparr>] \<and>
            f \<notin> set (foods g') \<and>
            \<lparr>X = 7, Y = 5\<rparr> \<notin> Pos_food ` set (foods g') \<and>
            score g' = 10)"
proof -
  let ?s = "[\<lparr>X = 7, Y = 5\<rparr>, \<lparr>X = 6, Y = 5\<rparr>, \<lparr>X = 5, Y = 5\<rparr>, \<lparr>X = 4, Y = 5\<rparr>]"
  let ?g5 = "g\<lparr>dir := \<lparr>X = 1, Y = 0\<rparr>, lastMove := nowMove env, snake := ?s,
               score := 10, grow := False, foods := []\<rparr>"
  have start: "snake g = [\<lparr>X = 6, Y = 5\<rparr>, \<lparr>X = 5, Y = 5\<rparr>, \<lparr>X = 4, Y = 5\<rparr>]"
    "dir g = \<lparr>X = 1, Y = 0\<rparr>" "score g = 0" "\<not> gameOver g" "foods g = [f]" "\<not> grow g" "lastMove g = t1"
    by (simp_all add: g mainGame_fields)
  have d: "directionInput env \<lparr>X = 1, Y = 0\<rparr> = \<lparr>X = 1, Y = 0\<rparr>"
    using keys by (simp add: directionInput_def)
  have "\<not> time_Sub (nowSince env) t1 < 100 * Millisecond"
    using due by (simp add: time_Sub_less Millisecond_def minDuration_def maxDuration_def)
  then have U: "Update env g = spawnLogic env ?g5"
    by (simp add: Update_def Let_def start d hitsWall_def grid_cols grid_rows
        eatFood_def f trimTail_def expireFood_def not_less)
  have "\<exists>pos \<in> set (draws env). pos \<notin> set (snake ?g5) \<and> pos \<notin> Pos_food ` set (foods ?g5)"
    using free by simp
  then obtain g' where g': "spawnLogic env ?g5 = Inr g'"
    using spawnLogic_returns by blast
  from spawnLogic_cases [OF g']
  have "snake g' = ?s \<and> f \<notin> set (foods g') \<and> \<lparr>X = 7, Y = 5\<rparr> \<notin> Pos_food ` set (foods g') \<and>
        score g' = 10"
    using f by auto
  with U g' start show ?thesis by simp
qed

theorem scenario_A_eats_food_witness:
  "100000000 \<le> nowSince envA - 5000000000 \<and>
   (\<exists>g'. Update envA gameA = Inr g' \<and>
      snake g' = [\<lparr>X = 7, Y = 5\<rparr>, \<lparr>X = 6, Y = 5\<rparr>, \<lparr>X = 5, Y = 5\<rparr>, \<lparr>X = 4, Y = 5\<rparr>] \<and>
      foodA \<notin> set (foods g') \<and> score g' = 10)"
proof -
  have facts: "Pos_food foodA = \<lparr>X = 7, Y = 5\<rparr>" "\<not> keyArrowUp envA" "\<not> keyArrowDown envA"
    "100000000 \<le> nowSince envA - 5000000000"
    "\<exists>pos \<in> set (draws envA).
        pos \<notin> set [\<lparr>X = 7, Y = 5\<rparr>, \<lparr>X = 6, Y = 5\<rparr>, \<lparr>X = 5, Y = 5\<rparr>, \<lparr>X = 4, Y = 5\<rparr>]"
    by (simp_all add: foodA_def envA_def poll_def)
  from scenario_A_eats_food [OF gameA_def facts] facts(4) show ?thesis
    by blast
qed

section \<open>Collisions\<close>

text \<open>
  C2, as the code has it. In a game that is not over, let the candidate head be the head
  plus the heading the call's key input leaves. When the candidate is a snake cell or lies
  outside \<open>[0, 13) \<times> [0, 10)\<close>, a call of \<open>Update\<close> at least 100 ms after the last move
  returns, takes exactly one life and leaves the score as it was. When a life is left, the
  result is the game \<open>init\<close> builds: not over, the snake on its three starting cells
  heading right, and the food list emptied. When none is left, the game is over and the
  snake and the food list are as they were.
\<close>

theorem collision_loses_life:
  assumes playing: "\<not> gameOver g"
    and snake: "snake g = h # rest"
    and due: "100000000 \<le> nowSince env - lastMove g"
    and d: "d = directionInput env (dir g)"
    and nh: "nh = \<lparr>X = X h + X d, Y = Y h + Y d\<rparr>"
    and hit: "nh \<in> set (snake g) \<or> X nh < 0 \<or> 13 \<le> X nh \<or> Y nh < 0 \<or> 10 \<le> Y nh"
  shows "\<exists>g'. Update env g = Inr g' \<and> lives g' = lives g - 1 \<and> score g' = score g \<and>
     (if 0 < lives g - 1
      then g' = init (nowInit1 env) (nowInit2 env)
                  (g\<lparr>dir := d, lastMove := nowMove env, lives := lives g - 1\<rparr>) \<and>
           \<not> gameOver g' \<and>
           snake g' = [\<lparr>X = 6, Y = 5\<rparr>, \<lparr>X = 5, Y = 5\<rparr>, \<lparr>X = 4, Y = 5\<rparr>] \<and>
           dir g' = \<lparr>X = 1, Y = 0\<rparr> \<and> foods g' = []
      else gameOver g' \<and> snake g' = snake g \<and> foods g' = foods g)"
proof -
  let ?g2 = "g\<lparr>dir := directionInput env (dir g), lastMove := nowMove env\<rparr>"
  have gate: "\<not> time_Sub (nowSince env) (lastMove g) < 100 * Millisecond"
    using due by (simp add: time_Sub_less Millisecond_def minDuration_def maxDuration_def)
  have "hitsWall nh \<or> nh \<in> set (snake g)"
    using hit by (auto simp: hitsWall_def grid_cols grid_rows)
  with playing gate snake nh d have U: "Update env g = Inr (loseLife env ?g2)"
    by (simp add: Update_collide)
  have "0 < lives g - 1 \<Longrightarrow> loseLife env ?g2 =
      init (nowInit1 env) (nowInit2 env) (g\<lparr>dir := d, lastMove := nowMove env, lives := lives g - 1\<rparr>)"
    by (simp add: loseLife_def Let_def d)
  with U show ?thesis
    by (simp add: loseLife_frame init_frame init_snake)
qed

theorem collision_loses_life_witness:
  "100000000 \<le> nowSince envB - lastMove gameB \<and>
   (\<exists>g'. Update envB gameB = Inr g' \<and> lives g' = 2 \<and> score g' = 0 \<and>
      \<not> gameOver g' \<and> foods g' = [])"
proof -
  have start: "\<not> gameOver gameB" "lives gameB = 3" "score gameB = 0"
    "snake gameB = \<lparr>X = 12, Y = 5\<rparr> # [\<lparr>X = 11, Y = 5\<rparr>, \<lparr>X = 10, Y = 5\<rparr>]"
    by (simp_all add: gameB_def)
  have due: "100000000 \<le> nowSince envB - lastMove gameB"
    by (simp add: gameB_def envB_def poll_def)
  have "\<exists>g'. Update envB gameB = Inr g' \<and> lives g' = lives gameB - 1 \<and>
      score g' = score gameB \<and>
      (if 0 < lives gameB - 1
       then g' = init (nowInit1 envB) (nowInit2 envB)
              (gameB\<lparr>dir := \<lparr>X = 1, Y = 0\<rparr>, lastMove := nowMove envB,
                 lives := lives gameB - 1\<rparr>) \<and>
            \<not> gameOver g' \<and>
            snake g' = [\<lparr>X = 6, Y = 5\<rparr>, \<lparr>X = 5, Y = 5\<rparr>, \<lparr>X = 4, Y = 5\<rparr>] \<and>
            dir g' = \<lparr>X = 1, Y = 0\<rparr> \<and> foods g' = []
       else gameOver g' \<and> snake g' = snake gameB \<and> foods g' = foods gameB)"
  proof (rule collision_loses_life [where nh = "\<lparr>X = 13, Y = 5\<rparr>"])
    show "\<lparr>X = 1, Y = 0\<rparr> = directionInput envB (dir gameB)"
      by (simp add: gameB_def envB_def poll_def directionInput_def)
    show "\<lparr>X = 13, Y = 5\<rparr> = \<lparr>X = X \<lparr>X = 12, Y = 5\<rparr> + X \<lparr>X = 1, Y = 0\<rparr>,
        Y = Y \<lparr>X = 12, Y = 5\<rparr> + Y \<lparr>X = 1, Y = 0\<rparr>\<rparr>"
      by simp
    show "\<lparr>X = 13, Y = 5\<rparr> \<in> set (snake gameB) \<or> X \<lparr>X = 13, Y = 5\<rparr> < 0 \<or>
        13 \<le> X \<lparr>X = 13, Y = 5\<rparr> \<or> Y \<lparr>X = 13, Y = 5\<rparr> < 0 \<or> 10 \<le> Y \<lparr>X = 13, Y = 5\<rparr>"
      by simp
  qed (rule start due)+
  then obtain g' where "Update envB gameB = Inr g'" "lives g' = 2" "score g' = 0"
    "\<not> gameOver g'" "foods g' = []"
    using start by auto
  with due show ?thesis by blast
qed

text \<open>
  The claim as stated fails where it says that the food set is not mutated. The game
  \<open>gameB\<close> is reached from the start; its head is on (12,5) heading right, so the
  candidate head (13,5) is off the grid; the due step takes a life, two are left, and
  \<open>init\<close> empties a list of four items.
\<close>

theorem collision_clears_food_counterexample:
  "run envsB (mainGame 5000000000 5000000000) = Inr gameB \<and>
   \<not> gameOver gameB \<and> 100000000 \<le> nowSince envB - lastMove gameB \<and>
   snake gameB = [\<lparr>X = 12, Y = 5\<rparr>, \<lparr>X = 11, Y = 5\<rparr>, \<lparr>X = 10, Y = 5\<rparr>] \<and>
   directionInput envB (dir gameB) = \<lparr>X = 1, Y = 0\<rparr> \<and>
   Update envB gameB = Inr resultB \<and> lives resultB = lives gameB - 1 \<and>
   \<not> gameOver resultB \<and> score resultB = score gameB \<and>
   length (foods gameB) = 4 \<and> foods resultB = []"
proof (rule conjI)
  show "run envsB (mainGame 5000000000 5000000000) = Inr gameB"
    by (rule gameB_reachable)
  show "\<not> gameOver gameB \<and> 100000000 \<le> nowSince envB - lastMove gameB \<and>
    snake gameB = [\<lparr>X = 12, Y = 5\<rparr>, \<lparr>X = 11, Y = 5\<rparr>, \<lparr>X = 10, Y = 5\<rparr>] \<and>
    directionInput envB (dir gameB) = \<lparr>X = 1, Y = 0\<rparr> \<and>
    Update envB gameB = Inr resultB \<and> lives resultB = lives gameB - 1 \<and>
    \<not> gameOver resultB \<and> score resultB = score gameB \<and>
    length (foods gameB) = 4 \<and> foods resultB = []"
    by (simp add: gameB_def envB_def resultB_def eval_defs)
qed

section \<open>The snake never overlaps itself\<close>

text \<open>
  C3. In every game that a sequence of \<open>Update\<close> calls reaches from the game \<open>main\<close>
  builds, the cells of the snake are pairwise distinct and the snake has at least the
  initial three cells. This holds in every reachable state, so in particular while the
  game is not over.
\<close>

theorem snake_cells_distinct:
  assumes "run envs (mainGame t1 t2) = Inr g"
  shows "distinct (snake g) \<and> 3 \<le> length (snake g)"
  using run_snake_inv [OF assms] by (simp add: mainGame_fields)

theorem snake_cells_distinct_witness:
  "run envsB (mainGame 5000000000 5000000000) = Inr gameB \<and> \<not> gameOver gameB \<and>
   distinct (snake gameB) \<and> 3 \<le> length (snake gameB)"
proof -
  have "\<not> gameOver gameB"
    by (simp add: gameB_def)
  with snake_cells_distinct [OF gameB_reachable] gameB_reachable show ?thesis
    by simp
qed

section \<open>The food list\<close>

text \<open>
  C4. In every game that a sequence of \<open>Update\<close> calls reaches from the game \<open>main\<close>
  builds, with every draw of \<open>rand.Intn\<close> in its range, the food list has at most four
  items, no two of them on the same cell, and each on a cell of the 13 by 10 grid. An item
  that a call of \<open>Update\<close> adds to the list is off the snake that call returns, which is
  the snake \<open>spawnFood\<close> saw; and whenever \<open>spawnFood\<close> returns, in any state, it has
  appended one item on a drawn cell that is off the snake and off the other items.
\<close>

theorem food_list_invariant:
  assumes "run envs (mainGame t1 t2) = Inr g" and "list_all drawsInRange envs"
  shows "length (foods g) \<le> 4 \<and> distinct (map Pos_food (foods g)) \<and>
     (\<forall>f \<in> set (foods g).
        0 \<le> X (Pos_food f) \<and> X (Pos_food f) < 13 \<and> 0 \<le> Y (Pos_food f) \<and> Y (Pos_food f) < 10) \<and>
     (\<forall>env g' f. Update env g = Inr g' \<and> f \<in> set (foods g') \<and> f \<notin> set (foods g) \<longrightarrow>
        Pos_food f \<notin> set (snake g')) \<and>
     (\<forall>rs t g0 g'. spawnFood rs t g0 = Inr g' \<longrightarrow>
        (\<exists>pos \<in> set rs. pos \<notin> set (snake g0) \<and> pos \<notin> Pos_food ` set (foods g0) \<and>
           g' = g0\<lparr>foods := foods g0 @
                  [\<lparr>Pos_food = pos, Spawned = t, Lifetime = 4 * Second\<rparr>]\<rparr>))"
proof -
  have "length (foods g) \<le> 4 \<and> distinct (map Pos_food (foods g)) \<and>
      (\<forall>f \<in> set (foods g). inGrid (Pos_food f))"
    using run_food_inv [OF assms] by (simp add: mainGame_fields)
  then show ?thesis
    using Update_spawned_off_snake spawnFood_Inr
    by (simp add: inGrid_def grid_cols grid_rows) blast
qed

theorem food_list_invariant_witness:
  "run envsB (mainGame 5000000000 5000000000) = Inr gameB \<and> list_all drawsInRange envsB \<and>
   length (foods gameB) \<le> 4 \<and> distinct (map Pos_food (foods gameB))"
proof -
  have rs: "list_all drawsInRange envsB"
    by (simp add: envsB_def poll_def drawsInRange_def inGrid_def grid_cols grid_rows)
  with food_list_invariant [OF gameB_reachable rs] gameB_reachable show ?thesis
    by simp
qed

section \<open>When food is spawned\<close>

text \<open>
  C5, as the code has it. Take a call of \<open>Update\<close> on a game that is not over, at least
  100 ms after the last move. Let \<open>nh\<close> be the candidate head, let \<open>hit\<close> say that it
  is a snake cell or off the grid, and let \<open>g5\<close> be the game after the move, the eating
  and the expiry filter. A spawn is attempted when the placement loop of \<open>spawnFood\<close> is
  entered, which shows in that the same call with no draw to consume does not return. This
  happens exactly when the step is no collision, the food list of \<open>g5\<close> has fewer than
  four items, and the next spawn time is Go's zero time or strictly before the clock
  reading \<open>now\<close> of line 134, for \<open>Time.After\<close> is strict. An attempt with a free draw
  returns with one item added, and any attempt either adds one item or finds no free draw.
  With no attempt the call returns the same game whatever the draws: \<open>g5\<close> after a move,
  and after a collision a game whose food list is empty or as it was. When \<open>now\<close> equals
  a next spawn time that is set, no spawn is attempted.
\<close>

theorem spawn_attempt_gate:
  assumes playing: "\<not> gameOver g"
    and snake: "snake g = h # rest"
    and due: "100000000 \<le> nowSince env - lastMove g"
    and d: "d = directionInput env (dir g)"
    and nh: "nh = \<lparr>X = X h + X d, Y = Y h + Y d\<rparr>"
    and hit: "hit = (nh \<in> set (snake g) \<or> X nh < 0 \<or> 13 \<le> X nh \<or> Y nh < 0 \<or> 10 \<le> Y nh)"
    and g5: "g5 = expireFood (nowFrame env) (trimTail (eatFood nh
               (g\<lparr>dir := d, lastMove := nowMove env, snake := nh # snake g\<rparr>)))"
    and attempt: "attempt =
        (\<not> hit \<and> length (foods g5) < 4 \<and> (nextFoodTime g = 0 \<or> nextFoodTime g < nowFrame env))"
  shows "(Update (env\<lparr>draws := []\<rparr>) g = Inl OutOfDraws) = attempt \<and>
     (attempt \<and> (\<exists>pos \<in> set (draws env). pos \<notin> set (snake g5) \<and>
                    pos \<notin> Pos_food ` set (foods g5)) \<longrightarrow>
        (\<exists>g'. Update env g = Inr g' \<and> length (foods g') = length (foods g5) + 1)) \<and>
     (attempt \<longrightarrow> Update env g = Inl OutOfDraws \<or>
        (\<exists>g'. Update env g = Inr g' \<and> length (foods g') = length (foods g5) + 1)) \<and>
     (\<not> attempt \<longrightarrow>
        (\<exists>g'. Update env g = Inr g' \<and> (\<forall>rs. Update (env\<lparr>draws := rs\<rparr>) g = Inr g') \<and>
           (if hit then foods g' = [] \<or> foods g' = foods g else g' = g5))) \<and>
     (nextFoodTime g \<noteq> 0 \<and> nowFrame env = nextFoodTime g \<longrightarrow> \<not> attempt) \<and>
     foods g5 = filter (\<lambda>food. time_Sub (nowFrame env) (Spawned food) < Lifetime food)
                  (foods (eatFood nh g)) \<and>
     nextFoodTime g5 = nextFoodTime g"
proof -
  let ?c = "length (foods g5) < 4 \<and> (nextFoodTime g = 0 \<or> nextFoodTime g < nowFrame env)"
  have fs5: "foods g5 = filter (\<lambda>food. time_Sub (nowFrame env) (Spawned food) < Lifetime food)
      (foods (eatFood nh g))"
    by (simp add: g5 moved_foods eatFood_foods_frame)
  have nf5: "nextFoodTime g5 = nextFoodTime g"
    by (simp add: g5 moved_frame)
  have eq: "nextFoodTime g \<noteq> 0 \<and> nowFrame env = nextFoodTime g \<longrightarrow> \<not> attempt"
    by (simp add: attempt)
  have wall: "hit = (hitsWall nh \<or> nh \<in> set (snake g))"
    by (auto simp: hit hitsWall_def grid_cols grid_rows)
  have gate: "\<And>rs. \<not> time_Sub (nowSince (env\<lparr>draws := rs\<rparr>)) (lastMove g) < 100 * Millisecond"
    using due by (simp add: time_Sub_less Millisecond_def minDuration_def maxDuration_def)
  have nh': "\<And>rs. nh = \<lparr>X = X h + X (directionInput (env\<lparr>draws := rs\<rparr>) (dir g)),
      Y = Y h + Y (directionInput (env\<lparr>draws := rs\<rparr>) (dir g))\<rparr>"
    by (simp add: nh d directionInput_draws)
  show ?thesis
  proof (cases hit)
    case True
    let ?g' = "loseLife env (g\<lparr>dir := d, lastMove := nowMove env\<rparr>)"
    from True wall have w: "hitsWall nh \<or> nh \<in> set (snake g)" by simp
    have U: "Update (env\<lparr>draws := rs\<rparr>) g = Inr ?g'" for rs
      using Update_collide [OF playing gate snake nh' w, of rs]
      by (simp add: directionInput_draws loseLife_draws d)
    from U [of "draws env"] have U0: "Update env g = Inr ?g'" by simp
    have fs: "foods ?g' = [] \<or> foods ?g' = foods g"
      by (simp add: loseLife_frame)
    from True have na: "\<not> attempt" by (simp add: attempt)
    from U U0 fs True na fs5 nf5 show ?thesis by simp
  next
    case False
    from False wall have w: "\<not> hitsWall nh" "nh \<notin> set (snake g)" by simp_all
    have U: "Update (env\<lparr>draws := rs\<rparr>) g = spawnLogic (env\<lparr>draws := rs\<rparr>) g5" for rs
      using Update_move [OF playing gate snake nh' w, of rs]
      by (simp add: directionInput_draws d g5)
    from U [of "draws env"] have U0: "Update env g = spawnLogic env g5" by simp
    from False have a: "attempt = ?c" by (simp add: attempt)
    have A: "(Update (env\<lparr>draws := []\<rparr>) g = Inl OutOfDraws) = attempt"
      by (simp add: U a spawnLogic_no_draws nf5)
    have B: "\<exists>g'. Update env g = Inr g' \<and> length (foods g') = length (foods g5) + 1"
      if "attempt" "\<exists>pos \<in> set (draws env). pos \<notin> set (snake g5) \<and> pos \<notin> Pos_food ` set (foods g5)"
      using spawnLogic_spawns [of g5 env] that a nf5 U0 by auto
    have B': "Update env g = Inl OutOfDraws \<or>
        (\<exists>g'. Update env g = Inr g' \<and> length (foods g') = length (foods g5) + 1)" if "attempt"
      using spawnLogic_attempt [of g5 env] that a nf5 U0 by auto
    have C: "\<exists>g'. Update env g = Inr g' \<and> (\<forall>rs. Update (env\<lparr>draws := rs\<rparr>) g = Inr g') \<and>
           (if hit then foods g' = [] \<or> foods g' = foods g else g' = g5)" if "\<not> attempt"
    proof -
      have "spawnLogic (env\<lparr>draws := rs\<rparr>) g5 = Inr g5" for rs
        using that a nf5 by (intro spawnLogic_idle) simp
      moreover have "spawnLogic env g5 = Inr g5"
        using that a nf5 by (intro spawnLogic_idle) simp
      ultimately show ?thesis
        using U U0 False by simp
    qed
    from A B B' C eq fs5 nf5 show ?thesis by blast
  qed
qed

theorem spawn_attempt_gate_witness:
  "\<not> gameOver resultD \<and> 100000000 \<le> nowSince envE - lastMove resultD \<and>
   nextFoodTime resultD < nowFrame envE \<and>
   Update (envE\<lparr>draws := []\<rparr>) resultD = Inl OutOfDraws \<and>
   (\<exists>g'. Update envE resultD = Inr g' \<and> length (foods g') = 4) \<and>
   nowFrame envD = nextFoodTime gameD \<and>
   Update (envD\<lparr>draws := []\<rparr>) gameD \<noteq> Inl OutOfDraws"
proof -
  let ?g5 = "expireFood (nowFrame envE) (trimTail (eatFood \<lparr>X = 2, Y = 4\<rparr>
               (resultD\<lparr>dir := \<lparr>X = - 1, Y = 0\<rparr>, lastMove := nowMove envE,
                  snake := \<lparr>X = 2, Y = 4\<rparr> # snake resultD\<rparr>)))"
  let ?h5 = "expireFood (nowFrame envD) (trimTail (eatFood \<lparr>X = 3, Y = 4\<rparr>
               (gameD\<lparr>dir := \<lparr>X = - 1, Y = 0\<rparr>, lastMove := nowMove envD,
                  snake := \<lparr>X = 3, Y = 4\<rparr> # snake gameD\<rparr>)))"
  have E: "\<not> gameOver resultD"
    "snake resultD = \<lparr>X = 3, Y = 4\<rparr> # [\<lparr>X = 4, Y = 4\<rparr>, \<lparr>X = 5, Y = 4\<rparr>, \<lparr>X = 6, Y = 4\<rparr>]"
    "100000000 \<le> nowSince envE - lastMove resultD"
    "\<lparr>X = - 1, Y = 0\<rparr> = directionInput envE (dir resultD)"
    "\<lparr>X = 2, Y = 4\<rparr> = \<lparr>X = X \<lparr>X = 3, Y = 4\<rparr> + X \<lparr>X = - 1, Y = 0\<rparr>,
        Y = Y \<lparr>X = 3, Y = 4\<rparr> + Y \<lparr>X = - 1, Y = 0\<rparr>\<rparr>"
    "False = (\<lparr>X = 2, Y = 4\<rparr> \<in> set (snake resultD) \<or> X \<lparr>X = 2, Y = 4\<rparr> < 0 \<or>
        13 \<le> X \<lparr>X = 2, Y = 4\<rparr> \<or> Y \<lparr>X = 2, Y = 4\<rparr> < 0 \<or> 10 \<le> Y \<lparr>X = 2, Y = 4\<rparr>)"
    by (simp_all add: resultD_def gameD_def envE_def poll_def directionInput_def)
  have E5: "length (foods ?g5) = 3" "nextFoodTime resultD < nowFrame envE"
    "\<exists>pos \<in> set (draws envE). pos \<notin> set (snake ?g5) \<and> pos \<notin> Pos_food ` set (foods ?g5)"
    by (simp_all add: resultD_def gameD_def envE_def eval_defs)
  then have Ea: "True =
      (\<not> False \<and> length (foods ?g5) < 4 \<and>
       (nextFoodTime resultD = 0 \<or> nextFoodTime resultD < nowFrame envE))"
    by simp
  from spawn_attempt_gate [OF E(1,2,3,4,5,6) refl Ea] E5
  have 1: "Update (envE\<lparr>draws := []\<rparr>) resultD = Inl OutOfDraws"
    and 2: "\<exists>g'. Update envE resultD = Inr g' \<and> length (foods g') = 4"
    by simp_all
  have D: "\<not> gameOver gameD"
    "snake gameD = \<lparr>X = 4, Y = 4\<rparr> # [\<lparr>X = 5, Y = 4\<rparr>, \<lparr>X = 6, Y = 4\<rparr>, \<lparr>X = 7, Y = 4\<rparr>]"
    "100000000 \<le> nowSince envD - lastMove gameD"
    "\<lparr>X = - 1, Y = 0\<rparr> = directionInput envD (dir gameD)"
    "\<lparr>X = 3, Y = 4\<rparr> = \<lparr>X = X \<lparr>X = 4, Y = 4\<rparr> + X \<lparr>X = - 1, Y = 0\<rparr>,
        Y = Y \<lparr>X = 4, Y = 4\<rparr> + Y \<lparr>X = - 1, Y = 0\<rparr>\<rparr>"
    "False = (\<lparr>X = 3, Y = 4\<rparr> \<in> set (snake gameD) \<or> X \<lparr>X = 3, Y = 4\<rparr> < 0 \<or>
        13 \<le> X \<lparr>X = 3, Y = 4\<rparr> \<or> Y \<lparr>X = 3, Y = 4\<rparr> < 0 \<or> 10 \<le> Y \<lparr>X = 3, Y = 4\<rparr>)"
    by (simp_all add: gameD_def envD_def poll_def directionInput_def)
  have D5: "nextFoodTime gameD \<noteq> 0" "nowFrame envD = nextFoodTime gameD"
    by (simp_all add: gameD_def envD_def poll_def)
  then have Da: "False =
      (\<not> False \<and> length (foods ?h5) < 4 \<and>
       (nextFoodTime gameD = 0 \<or> nextFoodTime gameD < nowFrame envD))"
    by simp
  from spawn_attempt_gate [OF D(1,2,3,4,5,6) refl Da]
  have 3: "Update (envD\<lparr>draws := []\<rparr>) gameD \<noteq> Inl OutOfDraws"
    by simp
  from 1 2 3 E(1,3) E5(2) D5(2) show ?thesis by simp
qed

text \<open>
  The claim as stated fails twice. At equality: the game \<open>gameD\<close> is reached from the
  start; the step is due and no collision, three items are in the list, \<open>now\<close> is the
  next spawn time to the nanosecond, and the draw (0,0) is free: the step moves the snake
  and spawns nothing. In a collision: the game \<open>gameT\<close> is reached from the start; the
  step is due, the list is empty, the next spawn time is 100 ms past and the draw (0,0) is
  free, but the left key turns the head onto the snake cell (5,5): \<open>Update\<close> returns from
  the collision branch and spawns nothing.
\<close>

theorem spawn_at_deadline_counterexample:
  "run envsD (mainGame 5000000000 5000000000) = Inr gameD \<and>
   \<not> gameOver gameD \<and> 100000000 \<le> nowSince envD - lastMove gameD \<and>
   length (foods gameD) = 3 \<and> nowFrame envD = nextFoodTime gameD \<and>
   draws envD = [\<lparr>X = 0, Y = 0\<rparr>] \<and> \<lparr>X = 0, Y = 0\<rparr> \<notin> set (snake resultD) \<and>
   \<lparr>X = 0, Y = 0\<rparr> \<notin> Pos_food ` set (foods gameD) \<and>
   Update envD gameD = Inr resultD \<and> foods resultD = foods gameD \<and>
   nextFoodTime resultD = nextFoodTime gameD \<and>
   run (envsB @ [envB, envU]) (mainGame 5000000000 5000000000) = Inr gameT \<and>
   \<not> gameOver gameT \<and> 100000000 \<le> nowSince envL - lastMove gameT \<and>
   foods gameT = [] \<and> nextFoodTime gameT < nowFrame envL \<and>
   draws envL = [\<lparr>X = 0, Y = 0\<rparr>] \<and> \<lparr>X = 0, Y = 0\<rparr> \<notin> set (snake resultT) \<and>
   directionInput envL (dir gameT) = \<lparr>X = - 1, Y = 0\<rparr> \<and>
   \<lparr>X = 5, Y = 5\<rparr> \<in> set (snake gameT) \<and>
   Update envL gameT = Inr resultT \<and> foods resultT = []"
proof -
  have "\<not> gameOver gameD \<and> 100000000 \<le> nowSince envD - lastMove gameD \<and>
    length (foods gameD) = 3 \<and> nowFrame envD = nextFoodTime gameD \<and>
    draws envD = [\<lparr>X = 0, Y = 0\<rparr>] \<and> \<lparr>X = 0, Y = 0\<rparr> \<notin> set (snake resultD) \<and>
    \<lparr>X = 0, Y = 0\<rparr> \<notin> Pos_food ` set (foods gameD) \<and>
    Update envD gameD = Inr resultD \<and> foods resultD = foods gameD \<and>
    nextFoodTime resultD = nextFoodTime gameD"
    by (simp add: envD_def gameD_def resultD_def eval_defs)
  moreover have "\<not> gameOver gameT \<and> 100000000 \<le> nowSince envL - lastMove gameT \<and>
    foods gameT = [] \<and> nextFoodTime gameT < nowFrame envL \<and>
    draws envL = [\<lparr>X = 0, Y = 0\<rparr>] \<and> \<lparr>X = 0, Y = 0\<rparr> \<notin> set (snake resultT) \<and>
    directionInput envL (dir gameT) = \<lparr>X = - 1, Y = 0\<rparr> \<and>
    \<lparr>X = 5, Y = 5\<rparr> \<in> set (snake gameT) \<and>
    Update envL gameT = Inr resultT \<and> foods resultT = []"
    by (simp add: envL_def gameT_def resultT_def resultB_def eval_defs)
  ultimately show ?thesis
    using gameD_reachable gameT_reachable by simp
qed

section \<open>Filling up, then one item a second\<close>




section \<open>Food expires\<close>

text \<open>
  C7, as the code has it. Take a due call of \<open>Update\<close> on a game that is not over, with
  \<open>now\<close> the clock reading of line 134 (not later than the reading \<open>spawnFood\<close> takes
  after it), and a food item of the list with the lifetime of 4 s (4000000000 ns). If the
  item is at least 4 s old and the call does not end the game, the item is not in the list
  afterwards: a step without collision filters it out, a collision with a life left empties
  the list. If the item is less than 4 s old, is not on the candidate head, and the
  candidate head is no collision, the item is still in the list afterwards. A call that
  ends the game leaves the list as it was.
\<close>

theorem expiry_law:
  assumes playing: "\<not> gameOver g" and due: "100000000 \<le> nowSince env - lastMove g"
    and U: "Update env g = Inr g'"
    and clock: "nowFrame env \<le> nowSpawn env"
    and f: "f \<in> set (foods g)" "Lifetime f = 4000000000"
    and d: "d = directionInput env (dir g)"
    and nh: "nh = \<lparr>X = X (hd (snake g)) + X d, Y = Y (hd (snake g)) + Y d\<rparr>"
  shows "(4000000000 \<le> nowFrame env - Spawned f \<and> \<not> gameOver g' \<longrightarrow> f \<notin> set (foods g')) \<and>
     (nowFrame env - Spawned f < 4000000000 \<and> Pos_food f \<noteq> nh \<and> nh \<notin> set (snake g) \<and>
      0 \<le> X nh \<and> X nh < 13 \<and> 0 \<le> Y nh \<and> Y nh < 10 \<longrightarrow> f \<in> set (foods g')) \<and>
     (gameOver g' \<longrightarrow> foods g' = foods g)"
proof -
  have gate: "\<not> time_Sub (nowSince env) (lastMove g) < 100 * Millisecond"
    using due by (simp add: time_Sub_less Millisecond_def minDuration_def maxDuration_def)
  have alive: "(time_Sub (nowFrame env) (Spawned f) < Lifetime f) =
      (nowFrame env - Spawned f < 4000000000)"
    using f(2) by (simp add: time_Sub_less minDuration_def maxDuration_def)
  have wall: "hitsWall nh = (\<not> (0 \<le> X nh \<and> X nh < 13 \<and> 0 \<le> Y nh \<and> Y nh < 10))"
    by (auto simp: hitsWall_def grid_cols grid_rows)
  from U show ?thesis
  proof (cases rule: Update_Inr_cases)
    case restart
    with playing show ?thesis by simp
  next
    case idle
    with playing show ?thesis by simp
  next
    case wait
    with gate show ?thesis by simp
  next
    case (collide h rest nh')
    from collide(3,4) d nh have "nh' = nh" by simp
    with collide(5,6) wall show ?thesis
      by (auto simp: loseLife_frame)
  next
    case (move h rest nh')
    from move(3,4) d nh have same: "nh' = nh" by simp
    let ?g2 = "g\<lparr>dir := directionInput env (dir g), lastMove := nowMove env, snake := nh # snake g\<rparr>"
    let ?g5 = "expireFood (nowFrame env) (trimTail (eatFood nh ?g2))"
    from move(7) same have S: "spawnLogic env ?g5 = Inr g'" by simp
    have over: "\<not> gameOver g'"
      using spawnLogic_frame(3) [OF S] playing by (simp add: moved_frame)
    have fs5: "foods ?g5 =
        filter (\<lambda>food. time_Sub (nowFrame env) (Spawned food) < Lifetime food) (foods (eatFood nh ?g2))"
      by (simp add: moved_foods)
    have expired: "f \<notin> set (foods g')" if old: "4000000000 \<le> nowFrame env - Spawned f"
    proof -
      from old alive have "f \<notin> set (foods ?g5)"
        by (simp add: fs5)
      moreover from old clock have "Spawned f \<noteq> nowSpawn env"
        by simp
      ultimately show ?thesis
        using spawnLogic_cases [OF S] by auto
    qed
    have kept: "f \<in> set (foods g')"
      if young: "nowFrame env - Spawned f < 4000000000" and off: "Pos_food f \<noteq> nh"
    proof -
      from f(1) off have "f \<in> set (foods (eatFood nh ?g2))"
        by (simp add: eatFood_keeps)
      with young alive have "f \<in> set (foods ?g5)"
        by (simp add: fs5)
      then show ?thesis
        using spawnLogic_cases [OF S] by auto
    qed
    from over expired kept show ?thesis by blast
  qed
qed

theorem expiry_law_witness:
  "\<not> gameOver gameC \<and> 100000000 \<le> nowSince envX - lastMove gameC \<and>
   foodC \<in> set (foods gameC) \<and> 4000000000 \<le> nowFrame envX - Spawned foodC \<and>
   foodC2 \<in> set (foods gameC) \<and> nowFrame envX - Spawned foodC2 < 4000000000 \<and>
   (\<exists>g'. Update envX gameC = Inr g' \<and> foodC \<notin> set (foods g') \<and> foodC2 \<in> set (foods g'))"
proof -
  have facts: "\<not> gameOver gameC" "100000000 \<le> nowSince envX - lastMove gameC"
    "nowFrame envX \<le> nowSpawn envX"
    "foodC \<in> set (foods gameC)" "Lifetime foodC = 4000000000"
    "4000000000 \<le> nowFrame envX - Spawned foodC"
    "foodC2 \<in> set (foods gameC)" "Lifetime foodC2 = 4000000000"
    "nowFrame envX - Spawned foodC2 < 4000000000"
    "snake gameC = \<lparr>X = 12, Y = 5\<rparr> # [\<lparr>X = 11, Y = 5\<rparr>, \<lparr>X = 10, Y = 5\<rparr>]"
    "directionInput envX (dir gameC) = \<lparr>X = 0, Y = - 1\<rparr>"
    by (simp_all add: gameC_def envX_def poll_def foodC_def foodC2_def directionInput_def)
  have "\<exists>g'. Update envX gameC = Inr g'"
    by (rule Update_returns [where nh = "\<lparr>X = 12, Y = 4\<rparr>" and h = "\<lparr>X = 12, Y = 5\<rparr>"
          and rest = "[\<lparr>X = 11, Y = 5\<rparr>, \<lparr>X = 10, Y = 5\<rparr>]"])
      (simp_all add: gameC_def envX_def poll_def foodC_def foodC2_def directionInput_def)
  then obtain g' where U: "Update envX gameC = Inr g'" ..
  have nh: "\<lparr>X = 12, Y = 4\<rparr> =
      \<lparr>X = X (hd (snake gameC)) + X \<lparr>X = 0, Y = - 1\<rparr>, Y = Y (hd (snake gameC)) + Y \<lparr>X = 0, Y = - 1\<rparr>\<rparr>"
    by (simp add: facts(10))
  have over: "\<not> gameOver g'"
    using Update_gameOver_iff [OF U facts(1) facts(11) [symmetric] nh]
    by (simp add: hitsWall_def grid_cols grid_rows facts(10))
  from expiry_law [OF facts(1,2) U facts(3,4,5) facts(11) [symmetric] nh] facts(6) over
  have 1: "foodC \<notin> set (foods g')"
    by blast
  from expiry_law [OF facts(1,2) U facts(3,7,8) facts(11) [symmetric] nh] facts(9,10)
  have 2: "foodC2 \<in> set (foods g')"
    by (simp add: foodC2_def)
  from 1 2 U facts show ?thesis by blast
qed

text \<open>
  The claim as stated fails in the step that ends the game. The game \<open>gameC\<close> is
  reached from the start; its oldest item is 4 s old and not on the candidate head, the
  step is due, and the collision with the wall takes the last life: \<open>Update\<close> returns
  before the expiry filter, the item stays in the list, and later calls leave the finished
  game as it is.
\<close>

theorem expired_food_survives_game_over_counterexample:
  "run envsC (mainGame 5000000000 5000000000) = Inr gameC \<and>
   \<not> gameOver gameC \<and> 100000000 \<le> nowSince envC - lastMove gameC \<and>
   foodC \<in> set (foods gameC) \<and> Lifetime foodC = 4000000000 \<and>
   4000000000 \<le> nowSince envC - Spawned foodC \<and>
   Pos_food foodC \<noteq> \<lparr>X = 13, Y = 5\<rparr> \<and>
   Update envC gameC = Inr resultC \<and> foodC \<in> set (foods resultC) \<and>
   Update (poll 10600000000 []) resultC = Inr resultC"
proof (rule conjI)
  show "run envsC (mainGame 5000000000 5000000000) = Inr gameC"
    by (rule gameC_reachable)
  show "\<not> gameOver gameC \<and> 100000000 \<le> nowSince envC - lastMove gameC \<and>
    foodC \<in> set (foods gameC) \<and> Lifetime foodC = 4000000000 \<and>
    4000000000 \<le> nowSince envC - Spawned foodC \<and>
    Pos_food foodC \<noteq> \<lparr>X = 13, Y = 5\<rparr> \<and>
    Update envC gameC = Inr resultC \<and> foodC \<in> set (foods resultC) \<and>
    Update (poll 10600000000 []) resultC = Inr resultC"
    by (simp add: envC_def gameC_def resultC_def foodC_def foodC2_def eval_defs)
qed

section \<open>The tick gate\<close>

text \<open>
  C8, as the code has it. \<open>Update\<close> polls the keys itself. A call with no key pressed
  returns the game unchanged when the game is over, and when less than 100 ms
  (100000000 ns) have passed since the last move. With a key pressed such a call can
  change the game: on a finished game the space key starts a new session (three lives, score 0, and
  what \<open>init\<close> sets), and in a call that comes too early an arrow key changes the heading
  and nothing else. When at least 100 ms have passed and the game is not over, the
  last-move time of the game returned is a clock reading of this call: the one of line 83,
  or the one \<open>init\<close> takes when the step ends in a reset. And such a call does return
  when the snake is not empty and some draw is off the candidate head, the snake and the
  food items.
\<close>

theorem step_gate:
  "(gameOver g \<and> \<not> keySpace env \<longrightarrow> Update env g = Inr g) \<and>
   (gameOver g \<and> keySpace env \<longrightarrow>
      Update env g = Inr (init (nowInit1 env) (nowInit2 env) (g\<lparr>lives := 3, score := 0\<rparr>))) \<and>
   (\<not> gameOver g \<and> nowSince env - lastMove g < 100000000 \<longrightarrow>
      Update env g = Inr (g\<lparr>dir := directionInput env (dir g)\<rparr>)) \<and>
   (\<not> gameOver g \<and> nowSince env - lastMove g < 100000000 \<and>
    \<not> keyArrowUp env \<and> \<not> keyArrowDown env \<and> \<not> keyArrowLeft env \<and> \<not> keyArrowRight env \<longrightarrow>
      Update env g = Inr g) \<and>
   (\<forall>g'. \<not> gameOver g \<and> 100000000 \<le> nowSince env - lastMove g \<and> Update env g = Inr g' \<longrightarrow>
      lastMove g' = nowMove env \<or> lastMove g' = nowInit1 env) \<and>
   (\<forall>h rest d nh. \<not> gameOver g \<and> snake g = h # rest \<and> d = directionInput env (dir g) \<and>
      nh = \<lparr>X = X h + X d, Y = Y h + Y d\<rparr> \<and>
      (\<exists>pos \<in> set (draws env). pos \<noteq> nh \<and> pos \<notin> set (snake g) \<and>
         pos \<notin> Pos_food ` set (foods g)) \<longrightarrow>
      (\<exists>g'. Update env g = Inr g'))"
proof -
  have gate: "(time_Sub (nowSince env) (lastMove g) < 100 * Millisecond) =
      (nowSince env - lastMove g < 100000000)"
    by (simp add: time_Sub_less Millisecond_def minDuration_def maxDuration_def)
  have over: "gameOver g \<and> \<not> keySpace env \<longrightarrow> Update env g = Inr g"
    by (simp add: Update_def)
  have restart: "gameOver g \<and> keySpace env \<longrightarrow>
      Update env g = Inr (init (nowInit1 env) (nowInit2 env) (g\<lparr>lives := 3, score := 0\<rparr>))"
    by (simp add: Update_def)
  have wait: "\<not> gameOver g \<and> nowSince env - lastMove g < 100000000 \<longrightarrow>
      Update env g = Inr (g\<lparr>dir := directionInput env (dir g)\<rparr>)"
    by (simp add: Update_def Let_def gate)
  have nokey: "\<not> keyArrowUp env \<and> \<not> keyArrowDown env \<and> \<not> keyArrowLeft env \<and> \<not> keyArrowRight env \<longrightarrow>
      g\<lparr>dir := directionInput env (dir g)\<rparr> = g"
    by (simp add: directionInput_def)
  have runs: "\<forall>g'. \<not> gameOver g \<and> 100000000 \<le> nowSince env - lastMove g \<and> Update env g = Inr g' \<longrightarrow>
      lastMove g' = nowMove env \<or> lastMove g' = nowInit1 env"
    using Update_due_lastMove [of env g] gate by auto
  have returns: "\<forall>h rest d nh. \<not> gameOver g \<and> snake g = h # rest \<and> d = directionInput env (dir g) \<and>
      nh = \<lparr>X = X h + X d, Y = Y h + Y d\<rparr> \<and>
      (\<exists>pos \<in> set (draws env). pos \<noteq> nh \<and> pos \<notin> set (snake g) \<and>
         pos \<notin> Pos_food ` set (foods g)) \<longrightarrow>
      (\<exists>g'. Update env g = Inr g')"
    using Update_returns [of g _ _ _ env] by blast
  from over restart wait nokey runs returns show ?thesis
    by presburger
qed

theorem step_gate_witness:
  "Update envW gameA = Inr gameA \<and> Update envC resultC = Inr resultC \<and>
   Update envD gameD = Inr resultD \<and> lastMove resultD = nowMove envD"
proof -
  have "\<not> gameOver gameA \<and> nowSince envW - lastMove gameA < 100000000 \<and>
      \<not> keyArrowUp envW \<and> \<not> keyArrowDown envW \<and> \<not> keyArrowLeft envW \<and> \<not> keyArrowRight envW"
    by (simp add: gameA_def envW_def poll_def mainGame_fields)
  with step_gate [of gameA envW] have 1: "Update envW gameA = Inr gameA"
    by blast
  have "gameOver resultC \<and> \<not> keySpace envC"
    by (simp add: resultC_def envC_def poll_def)
  with step_gate [of resultC envC] have 2: "Update envC resultC = Inr resultC"
    by blast
  have "\<not> gameOver gameD \<and> 100000000 \<le> nowSince envD - lastMove gameD"
    by (simp add: gameD_def envD_def poll_def)
  with step_gate [of gameD envD] Update_envD
  have "lastMove resultD = nowMove envD \<or> lastMove resultD = nowInit1 envD"
    by blast
  then have 3: "lastMove resultD = nowMove envD"
    by (simp add: envD_def poll_def)
  from 1 2 3 Update_envD show ?thesis by simp
qed

text \<open>
  The claim as stated fails when a key is pressed. Fifty milliseconds after the start, with
  the up key pressed, \<open>Update\<close> turns the heading of the game \<open>main\<close> built from right
  to up; and on the finished game \<open>resultC\<close>, reached from the start, the space key
  starts a new session.
\<close>

theorem step_with_key_counterexample:
  "\<not> gameOver (mainGame 5000000000 5000000000) \<and>
   nowSince envWU - lastMove (mainGame 5000000000 5000000000) < 100000000 \<and>
   dir (mainGame 5000000000 5000000000) = \<lparr>X = 1, Y = 0\<rparr> \<and>
   Update envWU (mainGame 5000000000 5000000000) =
     Inr ((mainGame 5000000000 5000000000)\<lparr>dir := \<lparr>X = 0, Y = - 1\<rparr>\<rparr>) \<and>
   run (envsC @ [envC]) (mainGame 5000000000 5000000000) = Inr resultC \<and>
   gameOver resultC \<and> lives resultC = 0 \<and>
   Update envS resultC = Inr restartC \<and> \<not> gameOver restartC \<and> lives restartC = 3"
proof -
  have "\<not> gameOver (mainGame 5000000000 5000000000) \<and>
    nowSince envWU - lastMove (mainGame 5000000000 5000000000) < 100000000 \<and>
    dir (mainGame 5000000000 5000000000) = \<lparr>X = 1, Y = 0\<rparr> \<and>
    Update envWU (mainGame 5000000000 5000000000) =
      Inr ((mainGame 5000000000 5000000000)\<lparr>dir := \<lparr>X = 0, Y = - 1\<rparr>\<rparr>)"
    by (simp add: envWU_def eval_defs)
  moreover have "gameOver resultC \<and> lives resultC = 0 \<and>
    Update envS resultC = Inr restartC \<and> \<not> gameOver restartC \<and> lives restartC = 3"
    by (simp add: envS_def resultC_def gameC_def restartC_def eval_defs)
  ultimately show ?thesis
    using resultC_reachable by simp
qed

section \<open>Heading input\<close>



section \<open>Lives and the end of the game\<close>

text \<open>
  C10. In every game that a sequence of \<open>Update\<close> calls reaches from the game \<open>main\<close>
  builds, the lives are never negative, at least 1 while the game is not over, and 0 once it
  is over. A call of \<open>Update\<close> on a reachable game that is not over returns a game that is
  over exactly when the step is due (100 ms since the last move), the candidate head (the
  head plus the heading the key input leaves) is a snake cell or off the 13 by 10 grid, and
  the life taken was the last one.
\<close>

theorem lives_and_game_over:
  assumes "run envs (mainGame t1 t2) = Inr g"
  shows "0 \<le> lives g \<and> (\<not> gameOver g \<longrightarrow> 1 \<le> lives g) \<and> (gameOver g \<longrightarrow> lives g = 0) \<and>
     (\<forall>env g' d nh. \<not> gameOver g \<and> Update env g = Inr g' \<and>
        d = directionInput env (dir g) \<and>
        nh = \<lparr>X = X (hd (snake g)) + X d, Y = Y (hd (snake g)) + Y d\<rparr> \<longrightarrow>
        gameOver g' =
          (100000000 \<le> nowSince env - lastMove g \<and>
           (nh \<in> set (snake g) \<or> X nh < 0 \<or> 13 \<le> X nh \<or> Y nh < 0 \<or> 10 \<le> Y nh) \<and>
           lives g - 1 = 0))"
proof -
  have inv: "(gameOver g \<longrightarrow> lives g = 0) \<and> (\<not> gameOver g \<longrightarrow> 1 \<le> lives g)"
    using run_lives_inv [OF assms] by (simp add: mainGame_fields)
  have gate: "\<And>env. (\<not> time_Sub (nowSince env) (lastMove g) < 100 * Millisecond) =
      (100000000 \<le> nowSince env - lastMove g)"
    by (simp add: time_Sub_less Millisecond_def minDuration_def maxDuration_def not_less)
  have wall: "\<And>nh. hitsWall nh = (X nh < 0 \<or> 13 \<le> X nh \<or> Y nh < 0 \<or> 10 \<le> Y nh)"
    by (auto simp: hitsWall_def grid_cols grid_rows)
  have "\<And>env g' d nh. \<not> gameOver g \<Longrightarrow> Update env g = Inr g' \<Longrightarrow>
        d = directionInput env (dir g) \<Longrightarrow>
        nh = \<lparr>X = X (hd (snake g)) + X d, Y = Y (hd (snake g)) + Y d\<rparr> \<Longrightarrow>
        gameOver g' =
          (100000000 \<le> nowSince env - lastMove g \<and>
           (nh \<in> set (snake g) \<or> X nh < 0 \<or> 13 \<le> X nh \<or> Y nh < 0 \<or> 10 \<le> Y nh) \<and>
           lives g - 1 = 0)"
  proof -
    fix env g' d nh
    assume a: "\<not> gameOver g" "Update env g = Inr g'" "d = directionInput env (dir g)"
      "nh = \<lparr>X = X (hd (snake g)) + X d, Y = Y (hd (snake g)) + Y d\<rparr>"
    from inv a(1) have "(\<not> 0 < lives g - 1) = (lives g - 1 = 0)" by auto
    with Update_gameOver_iff [OF a(2) a(1) a(3) a(4)] show "gameOver g' =
          (100000000 \<le> nowSince env - lastMove g \<and>
           (nh \<in> set (snake g) \<or> X nh < 0 \<or> 13 \<le> X nh \<or> Y nh < 0 \<or> 10 \<le> Y nh) \<and>
           lives g - 1 = 0)"
      by (simp only: gate wall) blast
  qed
  with inv show ?thesis by auto
qed

theorem lives_and_game_over_witness:
  "run envsC (mainGame 5000000000 5000000000) = Inr gameC \<and> \<not> gameOver gameC \<and>
   1 \<le> lives gameC \<and> Update envC gameC = Inr resultC \<and> gameOver resultC \<and> lives gameC - 1 = 0"
proof -
  have facts: "\<not> gameOver gameC" "lives gameC - 1 = 0"
    "100000000 \<le> nowSince envC - lastMove gameC"
    "directionInput envC (dir gameC) = \<lparr>X = 1, Y = 0\<rparr>"
    "hd (snake gameC) = \<lparr>X = 12, Y = 5\<rparr>"
    by (simp_all add: gameC_def envC_def poll_def directionInput_def)
  from lives_and_game_over [OF gameC_reachable]
  have "1 \<le> lives gameC" and
    "gameOver resultC =
       (100000000 \<le> nowSince envC - lastMove gameC \<and>
        (\<lparr>X = 13, Y = 5\<rparr> \<in> set (snake gameC) \<or> X \<lparr>X = 13, Y = 5\<rparr> < 0 \<or>
         13 \<le> X \<lparr>X = 13, Y = 5\<rparr> \<or> Y \<lparr>X = 13, Y = 5\<rparr> < 0 \<or> 10 \<le> Y \<lparr>X = 13, Y = 5\<rparr>) \<and>
        lives gameC - 1 = 0)"
    using facts Update_envC by auto
  then show ?thesis
    using facts gameC_reachable Update_envC by simp
qed

end
